theory Spec2Isabelle
  imports Complex_Main "HOL-Library.Multiset" "HOL-Library.Word"
begin

section \<open>Dense linear algebra\<close>

text \<open>
  The library computes on Eigen vectors and matrices of scalar type double. Eigen is
  not part of the repository. The embedding takes the scalars as exact reals, a column
  vector as the list of its entries and a matrix as the list of its rows. Sum, difference,
  product, transpose and the diagonal wrapper are written out below; the matrix
  inverse is a parameter \<open>inv_mat\<close> of every function that calls \<open>.inverse()\<close>, so
  that nothing is assumed about what it returns, in particular on a singular matrix.
  Eigen asserts that the shapes of the operands of a sum or a product agree. The
  operands of the update have the shapes their types fix, and the embedding has no
  error for them: a sum is taken over the common rows.
\<close>

type_synonym vec = "real list"
type_synonym mat = "real list list"

definition dot :: "vec \<Rightarrow> vec \<Rightarrow> real" where
  "dot u v = sum_list (map2 (*) u v)"

definition vec_add :: "vec \<Rightarrow> vec \<Rightarrow> vec" where
  "vec_add u v = map2 (+) u v"

definition vec_sub :: "vec \<Rightarrow> vec \<Rightarrow> vec" where
  "vec_sub u v = map2 (-) u v"

definition mat_add :: "mat \<Rightarrow> mat \<Rightarrow> mat" where
  "mat_add A B = map2 vec_add A B"

definition mat_sub :: "mat \<Rightarrow> mat \<Rightarrow> mat" where
  "mat_sub A B = map2 vec_sub A B"

definition cols :: "mat \<Rightarrow> nat" where
  "cols A = (case A of [] \<Rightarrow> 0 | r # _ \<Rightarrow> length r)"

definition col :: "mat \<Rightarrow> nat \<Rightarrow> vec" where
  "col A j = map (\<lambda>r. r ! j) A"

definition transpose_mat :: "mat \<Rightarrow> mat" where
  "transpose_mat A = map (col A) [0..<cols A]"

definition mat_mult :: "mat \<Rightarrow> mat \<Rightarrow> mat" where
  "mat_mult A B = map (\<lambda>r. map (\<lambda>j. dot r (col B j)) [0..<cols B]) A"

definition mat_vec :: "mat \<Rightarrow> vec \<Rightarrow> vec" where
  "mat_vec A v = map (\<lambda>r. dot r v) A"

text \<open>\<open>w.asDiagonal()\<close>: the square matrix with \<open>w\<close> on its diagonal.\<close>

definition asDiagonal :: "vec \<Rightarrow> mat" where
  "asDiagonal w =
     map (\<lambda>i. map (\<lambda>j. if i = j then w ! i else 0) [0..<length w]) [0..<length w]"

text \<open>\<open>D.setZero(n)\<close>: the zero vector of length \<open>n\<close>.\<close>

definition setZero :: "nat \<Rightarrow> vec" where
  "setZero n = replicate n 0"

text \<open>
  \<open>v.middleRows(start, n)\<close>: the block of \<open>n\<close> rows from row \<open>start\<close>. Eigen asserts
  that the block lies inside the vector; the embedding returns \<open>None\<close> where the
  assertion fails.
\<close>

definition middleRows :: "vec \<Rightarrow> nat \<Rightarrow> nat \<Rightarrow> vec option" where
  "middleRows v start n =
     (if start + n \<le> length v then Some (take n (drop start v)) else None)"

text \<open>
  \<open>y.middleRows(start, n) = v\<close>: the assignment to a block asserts the block lies inside
  \<open>y\<close> and that \<open>v\<close> has \<open>n\<close> rows.
\<close>

definition assign_middleRows :: "vec \<Rightarrow> nat \<Rightarrow> nat \<Rightarrow> vec \<Rightarrow> vec option" where
  "assign_middleRows y start n v =
     (if start + n \<le> length y \<and> length v = n
      then Some (take start y @ v @ drop (start + n) y) else None)"

section \<open>Errors\<close>

text \<open>
  The first three are the error kinds the specification names. The other two are
  assertions of Eigen that the code under verification can reach: \<open>IndexOutOfRange\<close>
  is the failed range assertion of a block access, \<open>SizeMismatch\<close> the failed size
  assertion of \<open>Zero(rows, cols)\<close> on a type of fixed size.
\<close>

datatype error =
    DimensionMismatch
  | InvalidSensorCount
  | SingularCovariance
  | IndexOutOfRange
  | SizeMismatch

section \<open>Beliefs and point sets\<close>

record gaussian =
  mean :: vec
  covariance :: mat

text \<open>
  Modelled from the spec: the class PointSet (fl/filter/gaussian/transform/point_set.hpp)
  is not among the sources. A point set is a matrix with one column per point and two
  weight vectors; \<open>weighted_mean\<close> and \<open>centered_points\<close> are the weighted mean and the
  centred points of the specification. The update does not call these derivations: it
  calls \<open>p.center()\<close> and then \<open>p.points()\<close>, and takes the matrix \<open>points()\<close> returns as
  the centred points. So \<open>center()\<close> subtracts the weighted mean from the stored points
  and returns the mean, and \<open>points()\<close> returns the stored points, which stay centred
  for every later use of the point set.
\<close>

record pointset =
  points_matrix :: mat
  mean_weights :: vec
  covariance_weights :: vec

definition weighted_mean :: "pointset \<Rightarrow> vec" where
  "weighted_mean p = mat_vec (points_matrix p) (mean_weights p)"

definition centered_points :: "pointset \<Rightarrow> mat" where
  "centered_points p =
     map2 (\<lambda>r m. map (\<lambda>v. v - m) r) (points_matrix p) (weighted_mean p)"

text \<open>\<open>p.center()\<close>: the value returned and the point set after the call.\<close>

definition center :: "pointset \<Rightarrow> vec \<times> pointset" where
  "center p = (weighted_mean p, p\<lparr>points_matrix := centered_points p\<rparr>)"

definition points :: "pointset \<Rightarrow> mat" where
  "points p = points_matrix p"

section \<open>Observation models and quadrature\<close>

text \<open>
  The local observation model is a template parameter. The update uses its setter
  \<open>id(i)\<close> and its evaluation \<open>observation(x, w)\<close>, which takes no sensor index: the
  evaluation reads the index stored by the setter. \<open>observation_fn\<close> is the function
  the model computes, by stored index.
\<close>

record local_model =
  sensor_id :: int
  observation_fn :: "int \<Rightarrow> vec \<Rightarrow> vec \<Rightarrow> vec"

definition set_id :: "int \<Rightarrow> local_model \<Rightarrow> local_model" where
  "set_id i m = m\<lparr>sensor_id := i\<rparr>"

definition observation :: "local_model \<Rightarrow> vec \<Rightarrow> vec \<Rightarrow> vec" where
  "observation m x w = observation_fn m (sensor_id m) x w"

record joint_model =
  local_obsrv_model :: local_model
  count_local_models :: int

text \<open>
  The quadrature is a template parameter of the policy; its two operations are fields.
  \<open>transform_to_points\<close> returns the state and the noise point set it writes into its
  two output arguments, \<open>propergate_points\<close> the observation point set.

  Modelled from the spec: the quadrature (fl/filter/gaussian/quadrature/) is not among
  the sources. By the specification \<open>transform_to_points\<close> fails with SingularCovariance
  if the joint covariance of belief and noise is not positive-definite, so it returns an
  error or the two point sets.
\<close>

record quadrature =
  transform_to_points :: "gaussian \<Rightarrow> gaussian \<Rightarrow> error + pointset \<times> pointset"
  propergate_points :: "(vec \<Rightarrow> vec \<Rightarrow> vec) \<Rightarrow> pointset \<Rightarrow> pointset \<Rightarrow> pointset"

section \<open>MultiSensorSigmaPointUpdatePolicy\<close>

text \<open>
  Everything a call of \<open>operator()\<close> can write: the observation model passed by
  reference, the members \<open>p_X\<close>, \<open>p_Q\<close>, \<open>p_Y\<close> and \<open>noise_distr_\<close> of the policy, and
  the output belief. The prior belief is a const reference that is read once, before the
  first write to the output belief, so it is passed by value.
\<close>

record update_state =
  obsrv_function :: joint_model
  p_X :: pointset
  p_Q :: pointset
  p_Y :: pointset
  noise_distr :: gaussian
  posterior_belief :: gaussian

definition cov :: "update_state \<Rightarrow> mat \<Rightarrow> mat \<Rightarrow> mat" where
  "cov st a b =
     (let W = asDiagonal (covariance_weights (p_X st))
      in mat_mult (mat_mult a W) (transpose_mat b))"

text \<open>
  The body of the loop over the sensors, for sensor \<open>i\<close>, with the accumulators \<open>C\<close> and
  \<open>D\<close>. \<open>X\<close> and \<open>c_xx_inv\<close> are the locals of \<open>operator()\<close> set before the loop. The
  member \<open>p_X\<close> that is propagated holds the points as \<open>p_X.center()\<close> has left them, and
  \<open>p_Y.center()\<close> leaves the centred observation points in the member \<open>p_Y\<close>.
\<close>

definition sensor_step ::
  "(mat \<Rightarrow> mat) \<Rightarrow> quadrature \<Rightarrow> vec \<Rightarrow> mat \<Rightarrow> mat \<Rightarrow> nat \<Rightarrow>
     update_state \<times> mat \<times> vec \<Rightarrow> (error \<times> update_state) + (update_state \<times> mat \<times> vec)" where
  "sensor_step inv_mat quad y X c_xx_inv i acc =
     (case acc of (st, C, D) \<Rightarrow>
        let model = set_id (int i) (local_obsrv_model (obsrv_function st));
            st1 = st\<lparr>obsrv_function := (obsrv_function st)\<lparr>local_obsrv_model := model\<rparr>\<rparr>;
            h = observation model;
            st2 = st1\<lparr>p_Y := propergate_points quad h (p_X st1) (p_Q st1)\<rparr>;
            mu_y = fst (center (p_Y st2));
            st3 = st2\<lparr>p_Y := snd (center (p_Y st2))\<rparr>;
            Y = points (p_Y st3);
            c_yy = cov st3 Y Y;
            c_xy = cov st3 X Y;
            c_yx = transpose_mat c_xy;
            A_i = mat_mult c_yx c_xx_inv;
            c_yy_given_x_inv =
              inv_mat (mat_sub c_yy (mat_mult (mat_mult c_yx c_xx_inv) c_xy));
            T = mat_mult (transpose_mat A_i) c_yy_given_x_inv;
            C' = mat_add C (mat_mult T A_i)
        in case middleRows y (i * length mu_y) (length mu_y) of
             None \<Rightarrow> Inl (IndexOutOfRange, st3)
           | Some y_i \<Rightarrow> Inr (st3, C', vec_add D (mat_vec T (vec_sub y_i mu_y))))"

text \<open>The loop, over the sensor indices in the order given.\<close>

fun fusion_loop ::
  "(mat \<Rightarrow> mat) \<Rightarrow> quadrature \<Rightarrow> vec \<Rightarrow> mat \<Rightarrow> mat \<Rightarrow> nat list \<Rightarrow>
     update_state \<times> mat \<times> vec \<Rightarrow> (error \<times> update_state) + (update_state \<times> mat \<times> vec)" where
  "fusion_loop inv_mat quad y X c_xx_inv [] acc = Inr acc"
| "fusion_loop inv_mat quad y X c_xx_inv (i # js) acc =
     (case sensor_step inv_mat quad y X c_xx_inv i acc of
        Inl e \<Rightarrow> Inl e
      | Inr acc' \<Rightarrow> fusion_loop inv_mat quad y X c_xx_inv js acc')"

text \<open>
  \<open>operator()\<close> with the order of the sensor indices as an argument. A failure of
  \<open>transform_to_points\<close> ends the call before any other statement. The two writes to
  the output belief are the last two statements; the second reads back the covariance
  the first has written.
\<close>

definition update_in_order ::
  "nat list \<Rightarrow> (mat \<Rightarrow> mat) \<Rightarrow> quadrature \<Rightarrow> gaussian \<Rightarrow> vec \<Rightarrow> update_state \<Rightarrow>
     (error \<times> update_state) + update_state" where
  "update_in_order order inv_mat quad prior_belief y st =
     (case transform_to_points quad prior_belief (noise_distr st) of
        Inl e \<Rightarrow> Inl (e, st)
      | Inr pts \<Rightarrow>
          (let st0 = st\<lparr>p_X := fst pts, p_Q := snd pts\<rparr>;
               mu_x = fst (center (p_X st0));
               st1 = st0\<lparr>p_X := snd (center (p_X st0))\<rparr>;
               X = points (p_X st1);
               c_xx = cov st1 X X;
               c_xx_inv = inv_mat c_xx;
               C = c_xx_inv;
               D = setZero (length mu_x)
           in case fusion_loop inv_mat quad y X c_xx_inv order (st1, C, D) of
                Inl e \<Rightarrow> Inl e
              | Inr (st2, C1, D1) \<Rightarrow>
                  let st3 = st2\<lparr>posterior_belief :=
                              (posterior_belief st2)\<lparr>covariance := inv_mat C1\<rparr>\<rparr>;
                      st4 = st3\<lparr>posterior_belief := (posterior_belief st3)
                              \<lparr>mean := vec_add mu_x
                                 (mat_vec (covariance (posterior_belief st3)) D1)\<rparr>\<rparr>
                  in Inr st4))"

text \<open>
  \<open>operator()\<close> as written: \<open>for (int i = 0; i < sensors; ++i)\<close> with
  \<open>sensors = obsrv_function.count_local_models()\<close>.
\<close>

definition multi_sensor_update ::
  "(mat \<Rightarrow> mat) \<Rightarrow> quadrature \<Rightarrow> gaussian \<Rightarrow> vec \<Rightarrow> update_state \<Rightarrow>
     (error \<times> update_state) + update_state" where
  "multi_sensor_update inv_mat quad prior_belief y st =
     update_in_order [0..<nat (count_local_models (obsrv_function st))]
       inv_mat quad prior_belief y st"


text \<open>The state in which a call ends, with or without an error.\<close>

definition final_state :: "(error \<times> update_state) + update_state \<Rightarrow> update_state" where
  "final_state r = (case r of Inl (e, s) \<Rightarrow> s | Inr s \<Rightarrow> s)"

section \<open>The accumulation as the specification words it\<close>

text \<open>
  The terms of the information-form accumulation of the specification, for sensor \<open>i\<close>,
  as functions of the state points \<open>pX\<close>, the noise points \<open>pQ\<close> and the local
  observation function \<open>f\<close> by sensor index. \<open>pX\<close> stands for the state points as the loop
  finds them in the member \<open>p_X\<close>, which \<open>p_X.center()\<close> has centred: the matrix \<open>X\<close> of
  the algorithm is the matrix of \<open>pX\<close>, and the observation points of sensor \<open>i\<close> are
  propagated from \<open>pX\<close>.
\<close>

definition weighted_cov :: "vec \<Rightarrow> mat \<Rightarrow> mat \<Rightarrow> mat" where
  "weighted_cov w a b = mat_mult (mat_mult a (asDiagonal w)) (transpose_mat b)"

text \<open>
  The state mean \<open>mean_x\<close>, and the members \<open>p_X\<close> and \<open>p_Q\<close> once
  \<open>transform_to_points\<close> and \<open>p_X.center()\<close> have run: the centred state points and the
  noise points. Where \<open>transform_to_points\<close> fails the members are as they were.
\<close>

definition state_mean :: "quadrature \<Rightarrow> gaussian \<Rightarrow> update_state \<Rightarrow> vec" where
  "state_mean quad prior_belief st =
     (case transform_to_points quad prior_belief (noise_distr st) of
        Inl e \<Rightarrow> []
      | Inr pts \<Rightarrow> fst (center (fst pts)))"

definition state_points :: "quadrature \<Rightarrow> gaussian \<Rightarrow> update_state \<Rightarrow> pointset" where
  "state_points quad prior_belief st =
     (case transform_to_points quad prior_belief (noise_distr st) of
        Inl e \<Rightarrow> p_X st
      | Inr pts \<Rightarrow> snd (center (fst pts)))"

definition noise_points :: "quadrature \<Rightarrow> gaussian \<Rightarrow> update_state \<Rightarrow> pointset" where
  "noise_points quad prior_belief st =
     (case transform_to_points quad prior_belief (noise_distr st) of
        Inl e \<Rightarrow> p_Q st
      | Inr pts \<Rightarrow> snd pts)"

definition local_fn :: "update_state \<Rightarrow> int \<Rightarrow> vec \<Rightarrow> vec \<Rightarrow> vec" where
  "local_fn st = observation_fn (local_obsrv_model (obsrv_function st))"

definition spec_p_Y ::
  "quadrature \<Rightarrow> (int \<Rightarrow> vec \<Rightarrow> vec \<Rightarrow> vec) \<Rightarrow> pointset \<Rightarrow> pointset \<Rightarrow> nat \<Rightarrow> pointset" where
  "spec_p_Y quad f pX pQ i = propergate_points quad (f (int i)) pX pQ"

definition spec_mean_y ::
  "quadrature \<Rightarrow> (int \<Rightarrow> vec \<Rightarrow> vec \<Rightarrow> vec) \<Rightarrow> pointset \<Rightarrow> pointset \<Rightarrow> nat \<Rightarrow> vec" where
  "spec_mean_y quad f pX pQ i = weighted_mean (spec_p_Y quad f pX pQ i)"

definition spec_c_xx :: "pointset \<Rightarrow> mat" where
  "spec_c_xx pX =
     weighted_cov (covariance_weights pX) (points_matrix pX) (points_matrix pX)"

definition spec_c_xy ::
  "quadrature \<Rightarrow> (int \<Rightarrow> vec \<Rightarrow> vec \<Rightarrow> vec) \<Rightarrow> pointset \<Rightarrow> pointset \<Rightarrow> nat \<Rightarrow> mat" where
  "spec_c_xy quad f pX pQ i =
     weighted_cov (covariance_weights pX) (points_matrix pX)
       (centered_points (spec_p_Y quad f pX pQ i))"

definition spec_c_yy ::
  "quadrature \<Rightarrow> (int \<Rightarrow> vec \<Rightarrow> vec \<Rightarrow> vec) \<Rightarrow> pointset \<Rightarrow> pointset \<Rightarrow> nat \<Rightarrow> mat" where
  "spec_c_yy quad f pX pQ i =
     weighted_cov (covariance_weights pX) (centered_points (spec_p_Y quad f pX pQ i))
       (centered_points (spec_p_Y quad f pX pQ i))"

text \<open>\<open>A_i = c_yx \<cdot> c_xx_inv\<close>.\<close>

definition spec_A ::
  "(mat \<Rightarrow> mat) \<Rightarrow> quadrature \<Rightarrow> (int \<Rightarrow> vec \<Rightarrow> vec \<Rightarrow> vec) \<Rightarrow> pointset \<Rightarrow> pointset \<Rightarrow> nat \<Rightarrow> mat" where
  "spec_A inv_mat quad f pX pQ i =
     mat_mult (transpose_mat (spec_c_xy quad f pX pQ i)) (inv_mat (spec_c_xx pX))"

text \<open>\<open>innovation_cov = c_yy - c_yx \<cdot> c_xx_inv \<cdot> c_xy\<close>.\<close>

definition innovation_cov ::
  "(mat \<Rightarrow> mat) \<Rightarrow> quadrature \<Rightarrow> (int \<Rightarrow> vec \<Rightarrow> vec \<Rightarrow> vec) \<Rightarrow> pointset \<Rightarrow> pointset \<Rightarrow> nat \<Rightarrow> mat" where
  "innovation_cov inv_mat quad f pX pQ i =
     mat_sub (spec_c_yy quad f pX pQ i)
       (mat_mult
          (mat_mult (transpose_mat (spec_c_xy quad f pX pQ i)) (inv_mat (spec_c_xx pX)))
          (spec_c_xy quad f pX pQ i))"

text \<open>\<open>T_i = transpose(A_i) \<cdot> inverse(innovation_cov)\<close>.\<close>

definition spec_T ::
  "(mat \<Rightarrow> mat) \<Rightarrow> quadrature \<Rightarrow> (int \<Rightarrow> vec \<Rightarrow> vec \<Rightarrow> vec) \<Rightarrow> pointset \<Rightarrow> pointset \<Rightarrow> nat \<Rightarrow> mat" where
  "spec_T inv_mat quad f pX pQ i =
     mat_mult (transpose_mat (spec_A inv_mat quad f pX pQ i))
       (inv_mat (innovation_cov inv_mat quad f pX pQ i))"

text \<open>The term \<open>T_i \<cdot> A_i\<close> that sensor \<open>i\<close> adds to \<open>C\<close>.\<close>

definition C_term ::
  "(mat \<Rightarrow> mat) \<Rightarrow> quadrature \<Rightarrow> (int \<Rightarrow> vec \<Rightarrow> vec \<Rightarrow> vec) \<Rightarrow> pointset \<Rightarrow> pointset \<Rightarrow> nat \<Rightarrow> mat" where
  "C_term inv_mat quad f pX pQ i =
     mat_mult (spec_T inv_mat quad f pX pQ i) (spec_A inv_mat quad f pX pQ i)"

text \<open>The \<open>i\<close>-th contiguous slice of length \<open>d\<close> of the joint measurement.\<close>

definition measurement_slice :: "vec \<Rightarrow> nat \<Rightarrow> nat \<Rightarrow> vec" where
  "measurement_slice y d i = take d (drop (i * d) y)"

text \<open>The term \<open>T_i \<cdot> (y_i - mean_y)\<close> that sensor \<open>i\<close> adds to \<open>D\<close>.\<close>

definition D_term ::
  "(mat \<Rightarrow> mat) \<Rightarrow> quadrature \<Rightarrow> (int \<Rightarrow> vec \<Rightarrow> vec \<Rightarrow> vec) \<Rightarrow> pointset \<Rightarrow> pointset \<Rightarrow> vec \<Rightarrow>
     nat \<Rightarrow> vec" where
  "D_term inv_mat quad f pX pQ y i =
     mat_vec (spec_T inv_mat quad f pX pQ i)
       (vec_sub (measurement_slice y (length (spec_mean_y quad f pX pQ i)) i)
          (spec_mean_y quad f pX pQ i))"

text \<open>\<open>C\<close> and \<open>D\<close> after the sensors of the list \<open>js\<close>: the initial value plus one term per sensor.\<close>

definition information_matrix ::
  "(mat \<Rightarrow> mat) \<Rightarrow> quadrature \<Rightarrow> (int \<Rightarrow> vec \<Rightarrow> vec \<Rightarrow> vec) \<Rightarrow> pointset \<Rightarrow> pointset \<Rightarrow>
     nat list \<Rightarrow> mat" where
  "information_matrix inv_mat quad f pX pQ js =
     foldl mat_add (inv_mat (spec_c_xx pX)) (map (C_term inv_mat quad f pX pQ) js)"

definition information_vector ::
  "(mat \<Rightarrow> mat) \<Rightarrow> quadrature \<Rightarrow> (int \<Rightarrow> vec \<Rightarrow> vec \<Rightarrow> vec) \<Rightarrow> pointset \<Rightarrow> pointset \<Rightarrow> vec \<Rightarrow>
     nat list \<Rightarrow> vec" where
  "information_vector inv_mat quad f pX pQ y js =
     foldl vec_add (setZero (length (points_matrix pX)))
       (map (D_term inv_mat quad f pX pQ y) js)"

text \<open>The slice of sensor \<open>i\<close> lies inside the joint measurement.\<close>

definition slice_ok ::
  "quadrature \<Rightarrow> (int \<Rightarrow> vec \<Rightarrow> vec \<Rightarrow> vec) \<Rightarrow> pointset \<Rightarrow> pointset \<Rightarrow> vec \<Rightarrow> nat \<Rightarrow> bool" where
  "slice_ok quad f pX pQ y i =
     (i * length (spec_mean_y quad f pX pQ i) + length (spec_mean_y quad f pX pQ i)
        \<le> length y)"

text \<open>
  What the loop body for sensor \<open>i\<close> writes to the state: the stored index and the
  centred observation points in \<open>p_Y\<close>.
\<close>

definition visited :: "quadrature \<Rightarrow> nat \<Rightarrow> update_state \<Rightarrow> update_state" where
  "visited quad i st =
     st\<lparr>obsrv_function := (obsrv_function st)
          \<lparr>local_obsrv_model := set_id (int i) (local_obsrv_model (obsrv_function st))\<rparr>,
        p_Y := snd (center (spec_p_Y quad (local_fn st) (p_X st) (p_Q st) i))\<rparr>"

section \<open>A scalar instance\<close>

text \<open>
  Modelled from the spec: the quadrature (fl/filter/gaussian/quadrature/) is not among
  the sources. \<open>propagate_columnwise\<close> is the specification's propagation: the function
  applied to the paired columns of the state and the noise points, with the weights of
  the state points. \<open>unscented_scalar g\<close> is the unscented rule with spread \<open>g\<close> for a
  scalar state and a scalar noise: the centre and, for each of the two axes of the
  augmented state, the centre moved by plus and minus \<open>g\<close> standard deviations, with
  weights that sum to one. The joint covariance of a scalar state and a scalar noise is
  the diagonal matrix of the two variances, positive-definite when both are positive;
  otherwise the transform fails with SingularCovariance.
\<close>

definition columns :: "pointset \<Rightarrow> vec list" where
  "columns p = transpose_mat (points_matrix p)"

definition propagate_columnwise ::
  "(vec \<Rightarrow> vec \<Rightarrow> vec) \<Rightarrow> pointset \<Rightarrow> pointset \<Rightarrow> pointset" where
  "propagate_columnwise h pX pQ =
     \<lparr>points_matrix = transpose_mat (map2 h (columns pX) (columns pQ)),
      mean_weights = mean_weights pX,
      covariance_weights = covariance_weights pX\<rparr>"

definition unscented_weights :: "real \<Rightarrow> vec" where
  "unscented_weights g =
     [1 - 2 / g\<^sup>2, 1 / (2 * g\<^sup>2), 1 / (2 * g\<^sup>2), 1 / (2 * g\<^sup>2), 1 / (2 * g\<^sup>2)]"

definition unscented_scalar_points ::
  "real \<Rightarrow> gaussian \<Rightarrow> gaussian \<Rightarrow> error + pointset \<times> pointset" where
  "unscented_scalar_points g b n =
     (if 0 < covariance b ! 0 ! 0 \<and> 0 < covariance n ! 0 ! 0 then
        (let x0 = mean b ! 0; sx = sqrt (covariance b ! 0 ! 0);
             q0 = mean n ! 0; sq = sqrt (covariance n ! 0 ! 0)
         in Inr (\<lparr>points_matrix = [[x0, x0 + g * sx, x0 - g * sx, x0, x0]],
                  mean_weights = unscented_weights g,
                  covariance_weights = unscented_weights g\<rparr>,
                 \<lparr>points_matrix = [[q0, q0, q0, q0 + g * sq, q0 - g * sq]],
                  mean_weights = unscented_weights g,
                  covariance_weights = unscented_weights g\<rparr>))
      else Inl SingularCovariance)"

definition unscented_scalar :: "real \<Rightarrow> quadrature" where
  "unscented_scalar g =
     \<lparr>transform_to_points = unscented_scalar_points g,
      propergate_points = propagate_columnwise\<rparr>"

text \<open>
  The inverse of a 1 by 1 matrix: the reciprocal of its entry. On the zero matrix the
  code divides by zero and gets an infinity, which is no real number; \<open>s\<close> stands for the
  entry returned there, and every theorem about \<open>inverse_1x1\<close> holds for every \<open>s\<close>.
\<close>

definition inverse_1x1 :: "real \<Rightarrow> mat \<Rightarrow> mat" where
  "inverse_1x1 s A = (if A ! 0 ! 0 = 0 then [[s]] else [[1 / (A ! 0 ! 0)]])"

text \<open>\<open>n\<close> sensors with the identity observation \<open>y = x + w\<close>.\<close>

definition identity_sensors :: "int \<Rightarrow> joint_model" where
  "identity_sensors n =
     \<lparr>local_obsrv_model = \<lparr>sensor_id = 0, observation_fn = (\<lambda>i x w. vec_add x w)\<rparr>,
      count_local_models = n\<rparr>"

text \<open>One sensor without noise, \<open>y = x\<close>.\<close>

definition noise_free_sensor :: joint_model where
  "noise_free_sensor =
     \<lparr>local_obsrv_model = \<lparr>sensor_id = 0, observation_fn = (\<lambda>i x w. x)\<rparr>,
      count_local_models = 1\<rparr>"

text \<open>One sensor with the observation \<open>y = x\<^sup>2 + x + w\<close> of a scalar state.\<close>

definition quadratic_sensor :: joint_model where
  "quadratic_sensor =
     \<lparr>local_obsrv_model =
        \<lparr>sensor_id = 0, observation_fn = (\<lambda>i x w. [x ! 0 * x ! 0 + x ! 0 + w ! 0])\<rparr>,
      count_local_models = 1\<rparr>"

definition empty_pointset :: pointset where
  "empty_pointset = \<lparr>points_matrix = [], mean_weights = [], covariance_weights = []\<rparr>"

text \<open>A policy with empty point sets and the given noise distribution, before a call.\<close>

definition initial_state :: "joint_model \<Rightarrow> gaussian \<Rightarrow> gaussian \<Rightarrow> update_state" where
  "initial_state m noise b =
     \<lparr>obsrv_function = m, p_X = empty_pointset, p_Q = empty_pointset, p_Y = empty_pointset,
      noise_distr = noise, posterior_belief = b\<rparr>"

section \<open>Shapes, symmetry and definiteness\<close>

text \<open>
  The words of the specification about matrices: a matrix of \<open>p\<close> rows and \<open>q\<close> columns,
  neither of them zero, a symmetric matrix, a positive-definite matrix, and a matrix that
  is the inverse of another.
\<close>

definition is_mat :: "nat \<Rightarrow> nat \<Rightarrow> mat \<Rightarrow> bool" where
  "is_mat p q A = (0 < p \<and> 0 < q \<and> length A = p \<and> list_all (\<lambda>r. length r = q) A)"

definition identity_mat :: "nat \<Rightarrow> mat" where
  "identity_mat n = asDiagonal (replicate n 1)"

definition symmetric :: "mat \<Rightarrow> bool" where
  "symmetric A = (transpose_mat A = A)"

definition positive_definite :: "mat \<Rightarrow> bool" where
  "positive_definite A =
     (\<forall>x. length x = length A \<and> x \<noteq> replicate (length A) 0 \<longrightarrow> 0 < dot x (mat_vec A x))"

definition is_inverse :: "mat \<Rightarrow> mat \<Rightarrow> bool" where
  "is_inverse A B =
     (is_mat (length A) (length A) B \<and>
      mat_mult A B = identity_mat (length A) \<and> mat_mult B A = identity_mat (length A))"

section \<open>FactorizedIIDObservationModel\<close>

text \<open>
  The local observation model of a factor: its three dimensions and its prediction. The
  dimensions are far below the range of \<open>int\<close> and are taken as naturals.
\<close>

record factor_model =
  observation_dimension :: nat
  noise_dimension :: nat
  state_dimension :: nat
  factor_predict_observation :: "vec \<Rightarrow> vec \<Rightarrow> real \<Rightarrow> vec"

text \<open>The members \<open>factor_obsrv_model_\<close> and \<open>factors_\<close>, a \<open>size_t\<close>.\<close>

record factorized_model =
  factor_obsrv_model :: factor_model
  factors :: "64 word"

text \<open>
  The constructor stores its \<open>int\<close> argument in the \<open>size_t\<close> member: the conversion of
  a signed 32-bit to an unsigned 64-bit integer. It has no other statement.
\<close>

definition FactorizedIIDObservationModel :: "factor_model \<Rightarrow> 32 word \<Rightarrow> error + factorized_model" where
  "FactorizedIIDObservationModel m n = Inr \<lparr>factor_obsrv_model = m, factors = scast n\<rparr>"

text \<open>\<open>observation_dimension()\<close> of the aggregate: a product of \<open>size_t\<close>.\<close>

definition aggregate_observation_dimension :: "factorized_model \<Rightarrow> nat" where
  "aggregate_observation_dimension M =
     unat (word_of_nat (observation_dimension (factor_obsrv_model M)) * factors M)"

definition aggregate_state_dimension :: "factorized_model \<Rightarrow> nat" where
  "aggregate_state_dimension M =
     unat (word_of_nat (state_dimension (factor_obsrv_model M)) * factors M)"

definition aggregate_noise_dimension :: "factorized_model \<Rightarrow> nat" where
  "aggregate_noise_dimension M =
     unat (word_of_nat (noise_dimension (factor_obsrv_model M)) * factors M)"

text \<open>
  The loop of \<open>predict_observation\<close> over the factor indices, \<open>for (int i = 0; i < factors_; ++i)\<close>:
  the index is compared as a \<open>size_t\<close>, so the loop runs over the indices below the
  member. Each of the three block accesses asserts its range.
\<close>

fun predict_loop ::
  "factor_model \<Rightarrow> vec \<Rightarrow> vec \<Rightarrow> real \<Rightarrow> nat list \<Rightarrow> vec \<Rightarrow> error + vec" where
  "predict_loop m state noise delta_time [] y = Inr y"
| "predict_loop m state noise delta_time (i # js) y =
     (case middleRows state (i * state_dimension m) (state_dimension m) of
        None \<Rightarrow> Inl IndexOutOfRange
      | Some s \<Rightarrow>
          (case middleRows noise (i * noise_dimension m) (noise_dimension m) of
             None \<Rightarrow> Inl IndexOutOfRange
           | Some w \<Rightarrow>
               (case assign_middleRows y (i * observation_dimension m) (observation_dimension m)
                       (factor_predict_observation m s w delta_time) of
                  None \<Rightarrow> Inl IndexOutOfRange
                | Some y' \<Rightarrow> predict_loop m state noise delta_time js y')))"

text \<open>
  Modelled from the spec: \<open>FactorSize\<close> (fl/util/meta.hpp) is not among the sources. It
  is the number of rows of \<open>n\<close> stacked copies of a vector of \<open>d\<close> rows.
\<close>

definition FactorSize :: "nat \<Rightarrow> nat \<Rightarrow> nat" where
  "FactorSize d n = d * n"

text \<open>
  The lengths of the aggregate vector types of the Traits, for a local model whose
  vector types have a fixed number of rows, the rows its dimensions report, and the
  template argument \<open>Factors\<close>. As in the source, the type \<open>Noise\<close> is sized by the rows
  of the local observation.
\<close>

definition Traits_Observation_rows :: "factor_model \<Rightarrow> nat \<Rightarrow> nat" where
  "Traits_Observation_rows m Factors = FactorSize (observation_dimension m) Factors"

definition Traits_Noise_rows :: "factor_model \<Rightarrow> nat \<Rightarrow> nat" where
  "Traits_Noise_rows m Factors = FactorSize (observation_dimension m) Factors"

definition Traits_State_rows :: "factor_model \<Rightarrow> nat \<Rightarrow> nat" where
  "Traits_State_rows m Factors = FactorSize (state_dimension m) Factors"

text \<open>
  \<open>predict_observation\<close> of the class with the template argument \<open>Factors\<close>. Its first
  statement is \<open>Observation y = Observation::Zero(observation_dimension(), 1)\<close>: on the
  aggregate type \<open>Observation\<close> of the Traits, of fixed size, Eigen asserts that the rows
  asked for are the rows of the type. The loop follows.
\<close>

definition predict_observation ::
  "nat \<Rightarrow> factorized_model \<Rightarrow> vec \<Rightarrow> vec \<Rightarrow> real \<Rightarrow> error + vec" where
  "predict_observation Factors M state noise delta_time =
     (if aggregate_observation_dimension M
           = Traits_Observation_rows (factor_obsrv_model M) Factors
      then predict_loop (factor_obsrv_model M) state noise delta_time [0..<unat (factors M)]
             (replicate (aggregate_observation_dimension M) 0)
      else Inl SizeMismatch)"

text \<open>Every slice that \<open>predict_observation\<close> reads lies inside its argument.\<close>

definition slices_in_bounds :: "factorized_model \<Rightarrow> vec \<Rightarrow> vec \<Rightarrow> bool" where
  "slices_in_bounds M state noise =
     list_all (\<lambda>i.
        i * state_dimension (factor_obsrv_model M) + state_dimension (factor_obsrv_model M)
          \<le> length state \<and>
        i * noise_dimension (factor_obsrv_model M) + noise_dimension (factor_obsrv_model M)
          \<le> length noise)
       [0..<unat (factors M)]"

text \<open>A local model with a scalar state, a scalar observation and two noise inputs.\<close>

definition two_noise_sensor :: factor_model where
  "two_noise_sensor =
     \<lparr>observation_dimension = 1, noise_dimension = 2, state_dimension = 1,
      factor_predict_observation = (\<lambda>s w t. [s ! 0 + w ! 0 + w ! 1])\<rparr>"

section \<open>Products with a diagonal and with a transpose\<close>

lemma vec_add_simps [simp]:
  "vec_add [] v = []" "vec_add u [] = []" "vec_add (a # u) (b # v) = (a + b) # vec_add u v"
  by (simp_all add: vec_add_def)

lemma vec_sub_simps [simp]:
  "vec_sub [] v = []" "vec_sub u [] = []" "vec_sub (a # u) (b # v) = (a - b) # vec_sub u v"
  by (simp_all add: vec_sub_def)

lemma dot_Nil [simp]: "dot [] v = 0" "dot u [] = 0"
  by (simp_all add: dot_def)

lemma dot_Cons [simp]: "dot (a # u) (b # v) = a * b + dot u v"
  by (simp add: dot_def)

lemma dot_nth:
  "length u = length v \<Longrightarrow> dot u v = (\<Sum>i = 0..<length u. u ! i * v ! i)"
  by (simp add: dot_def sum_list_sum_nth)

lemma dot_commute: "dot u v = dot v u"
proof (induction u arbitrary: v)
  case Nil
  then show ?case by simp
next
  case (Cons a u)
  then show ?case by (cases v) (simp_all add: mult.commute)
qed

lemma dot_unit:
  assumes "length r = n" "j < n"
  shows "dot r (map (\<lambda>i. if i = j then c i else 0) [0..<n]) = r ! j * c j"
proof -
  have len: "length r = length (map (\<lambda>i. if i = j then c i else 0) [0..<n])"
    using assms by simp
  have "dot r (map (\<lambda>i. if i = j then c i else 0) [0..<n]) =
      (\<Sum>i = 0..<n. if i = j then r ! j * c j else 0)"
    unfolding dot_nth [OF len] using assms by (intro sum.cong) auto
  also have "\<dots> = r ! j * c j"
    using assms by simp
  finally show ?thesis .
qed

lemma cols_asDiagonal: "cols (asDiagonal w) = length w"
  by (cases w) (simp_all add: cols_def asDiagonal_def upt_conv_Cons del: upt_Suc)

lemma col_asDiagonal:
  "col (asDiagonal w) j = map (\<lambda>i. if i = j then w ! i else 0) [0..<length w]"
  if "j < length w"
  using that by (simp add: col_def asDiagonal_def)

lemma mat_mult_asDiagonal:
  assumes "\<forall>r \<in> set A. length r = length w"
  shows "mat_mult A (asDiagonal w) = map (\<lambda>r. map2 (*) r w) A"
proof -
  have "map (\<lambda>j. dot r (col (asDiagonal w) j)) [0..<length w] = map2 (*) r w"
    if "length r = length w" for r
  proof (rule nth_equalityI)
    show "length (map (\<lambda>j. dot r (col (asDiagonal w) j)) [0..<length w]) = length (map2 (*) r w)"
      using that by simp
  next
    fix i assume "i < length (map (\<lambda>j. dot r (col (asDiagonal w) j)) [0..<length w])"
    then have i: "i < length w" by simp
    then show "map (\<lambda>j. dot r (col (asDiagonal w) j)) [0..<length w] ! i = map2 (*) r w ! i"
      using that dot_unit [of r "length w" i "\<lambda>i. w ! i"] by (simp add: col_asDiagonal)
  qed
  then show ?thesis
    using assms by (simp add: mat_mult_def cols_asDiagonal)
qed

lemma cols_eq: "A \<noteq> [] \<Longrightarrow> \<forall>r \<in> set A. length r = n \<Longrightarrow> cols A = n"
  by (cases A) (simp_all add: cols_def)

lemma mat_mult_transpose:
  assumes "\<forall>r \<in> set B. length r = n" "0 < n"
  shows "mat_mult A (transpose_mat B) = map (\<lambda>r. map (dot r) B) A"
proof (cases "B = []")
  case True
  then show ?thesis by (simp add: mat_mult_def transpose_mat_def cols_def)
next
  case False
  have cB: "cols B = n" using False assms(1) by (rule cols_eq)
  have tB: "transpose_mat B = map (col B) [0..<n]"
    by (simp add: transpose_mat_def cB)
  have "cols (transpose_mat B) = length B"
    using assms(2) by (simp add: tB cols_def upt_conv_Cons col_def)
  moreover have "col (transpose_mat B) j = B ! j" if "j < length B" for j
  proof -
    have "length (B ! j) = n" using that assms(1) by simp
    then have "map ((!) (B ! j)) [0..<n] = B ! j"
      using map_nth [of "B ! j"] by simp
    then show ?thesis
      using that by (simp add: tB col_def o_def)
  qed
  ultimately have "map (\<lambda>j. dot r (col (transpose_mat B) j)) [0..<cols (transpose_mat B)] = map (dot r) B" for r
    by (intro nth_equalityI) simp_all
  then show ?thesis by (simp add: mat_mult_def)
qed

lemma weighted_cov_rows:
  assumes "\<forall>r \<in> set a. length r = length w" "\<forall>r \<in> set b. length r = length w" "w \<noteq> []"
  shows "weighted_cov w a b = map (\<lambda>r. map (dot (map2 (*) r w)) b) a"
  using assms
  by (simp add: weighted_cov_def mat_mult_asDiagonal mat_mult_transpose [where n = "length w"] o_def)

lemma dot_add_left:
  "length a = length b \<Longrightarrow> dot (map2 (+) a b) w = dot a w + dot b w"
proof (induction a b arbitrary: w rule: list_induct2)
  case Nil
  then show ?case by simp
next
  case (Cons x xs y ys)
  then show ?case by (cases w) (simp_all add: algebra_simps)
qed

lemma dot_add_right:
  "length a = length b \<Longrightarrow> dot w (map2 (+) a b) = dot w a + dot w b"
  using dot_add_left [of a b w] by (simp add: dot_commute)

lemma scale_add:
  "length a = length b \<Longrightarrow> map2 (*) (map2 (+) a b) w = map2 (+) (map2 (*) a w) (map2 (*) b (w::real list))"
proof (induction a b arbitrary: w rule: list_induct2)
  case Nil
  then show ?case by simp
next
  case (Cons x xs y ys)
  then show ?case by (cases w) (simp_all add: algebra_simps)
qed

lemma dot_scale_sym: "dot (map2 (*) a w) b = dot (map2 (*) b w) a"
proof (induction a arbitrary: w b)
  case Nil
  then show ?case by simp
next
  case (Cons x xs)
  show ?case
  proof (cases w)
    case Nil
    then show ?thesis by simp
  next
    case (Cons v vs)
    then show ?thesis using Cons.IH by (cases b) simp_all
  qed
qed

lemma weighted_cov_1x1:
  assumes "length a = length w" "length b = length w" "w \<noteq> []"
  shows "weighted_cov w [a] [b] = [[dot (map2 (*) a w) b]]"
  using assms by (simp add: weighted_cov_rows)

lemma weighted_mean_row:
  "points_matrix p = [xs] \<Longrightarrow> weighted_mean p = [dot xs (mean_weights p)]"
  by (simp add: weighted_mean_def mat_vec_def)

lemma centered_points_row:
  "points_matrix p = [xs] \<Longrightarrow>
     centered_points p = [map (\<lambda>v. v - dot xs (mean_weights p)) xs]"
  by (simp add: centered_points_def weighted_mean_row)

lemma centered_points_length [simp]: "length (centered_points p) = length (points_matrix p)"
  by (simp add: centered_points_def weighted_mean_def mat_vec_def)

lemma weighted_mean_length [simp]: "length (weighted_mean p) = length (points_matrix p)"
  by (simp add: weighted_mean_def mat_vec_def)

lemma center_simps [simp]:
  "fst (center p) = weighted_mean p"
  "points_matrix (snd (center p)) = centered_points p"
  "mean_weights (snd (center p)) = mean_weights p"
  "covariance_weights (snd (center p)) = covariance_weights p"
  by (simp_all add: center_def)

lemma transpose_row: "xs \<noteq> [] \<Longrightarrow> transpose_mat [xs] = map (\<lambda>x. [x]) xs"
  by (intro nth_equalityI) (simp_all add: transpose_mat_def cols_def col_def)

lemma transpose_singletons:
  assumes "zs \<noteq> []"
  shows "transpose_mat (map (\<lambda>z. [z]) zs) = [zs]"
proof -
  have "cols (map (\<lambda>z. [z]) zs) = 1"
    using assms by (cases zs) (simp_all add: cols_def)
  then show ?thesis
    by (simp add: transpose_mat_def col_def o_def)
qed

lemma propagate_sum_row:
  assumes "points_matrix pX = [xs]" "points_matrix pQ = [qs]" "length xs = length qs" "xs \<noteq> []"
  shows "propagate_columnwise (\<lambda>x w. vec_add x w) pX pQ =
     \<lparr>points_matrix = [map2 (+) xs qs], mean_weights = mean_weights pX,
      covariance_weights = covariance_weights pX\<rparr>"
proof -
  have q: "qs \<noteq> []" using assms by auto
  have m: "map2 (\<lambda>x w. vec_add x w) (map (\<lambda>x. [x]) xs) (map (\<lambda>x. [x]) qs) =
      map (\<lambda>z. [z]) (map2 (+) xs qs)"
    using assms(3) by (induction xs qs rule: list_induct2) (simp_all add: vec_add_def)
  have ne: "map2 (+) xs qs \<noteq> []"
    using assms q by (cases xs; cases qs) simp_all
  have "transpose_mat (map2 (\<lambda>x w. vec_add x w) (columns pX) (columns pQ)) = [map2 (+) xs qs]"
    unfolding columns_def assms(1,2) transpose_row [OF assms(4)] transpose_row [OF q] m
    by (rule transpose_singletons [OF ne])
  then show ?thesis
    by (simp add: propagate_columnwise_def)
qed

lemma transpose_1x1 [simp]: "transpose_mat [[a]] = [[a]]"
  by (simp add: transpose_mat_def cols_def col_def)

lemma mat_mult_1x1 [simp]: "mat_mult [[a]] [[b]] = [[a * b]]"
  by (simp add: mat_mult_def cols_def col_def)

lemma mat_sub_1x1 [simp]: "mat_sub [[a]] [[b]] = [[a - b]]"
  by (simp add: mat_sub_def vec_sub_def)

lemma mat_add_1x1 [simp]: "mat_add [[a]] [[b]] = [[a + b]]"
  by (simp add: mat_add_def vec_add_def)

lemma mat_vec_1x1 [simp]: "mat_vec [[a]] [b] = [a * b]"
  by (simp add: mat_vec_def)

text \<open>
  A scalar state and a scalar noise with sensors \<open>y = x + w\<close>: the terms of a sensor, from
  the moments of the stored state points and of the noise points.
\<close>

lemma scalar_terms:
  fixes Pxx R :: real
  assumes shape: "points_matrix pX = [xs]" "points_matrix pQ = [qs]" "length qs = length xs"
      "length (mean_weights pX) = length xs" "length (covariance_weights pX) = length xs"
      "xs \<noteq> []" "mean_weights pQ = mean_weights pX"
    and moments: "weighted_mean pX = [0]" "weighted_mean pQ = [0]"
      "weighted_cov (covariance_weights pX) [xs] [xs] = [[Pxx]]"
      "weighted_cov (covariance_weights pX) [xs] [qs] = [[0]]"
      "weighted_cov (covariance_weights pX) [qs] [qs] = [[R]]"
    and quad: "propergate_points quad = propagate_columnwise"
    and inv: "\<forall>a. a \<noteq> 0 \<longrightarrow> inv_mat [[a]] = [[1 / a]]"
    and nz: "Pxx \<noteq> 0" "R \<noteq> 0"
  shows "spec_c_xx pX = [[Pxx]]"
    and "spec_mean_y quad (\<lambda>i x w. vec_add x w) pX pQ i = [0]"
    and "spec_A inv_mat quad (\<lambda>i x w. vec_add x w) pX pQ i = [[1]]"
    and "innovation_cov inv_mat quad (\<lambda>i x w. vec_add x w) pX pQ i = [[R]]"
    and "spec_T inv_mat quad (\<lambda>i x w. vec_add x w) pX pQ i = [[1 / R]]"
proof -
  let ?wm = "mean_weights pX" and ?wc = "covariance_weights pX"
  let ?f = "\<lambda>(i::int) x w. vec_add x w"
  have wc: "?wc \<noteq> []" using shape by auto
  have mx: "dot xs ?wm = 0" using moments(1) shape(1) by (simp add: weighted_mean_row)
  have mq: "dot qs ?wm = 0" using moments(2) shape(2,7) by (simp add: weighted_mean_row)
  have sxx: "dot (map2 (*) xs ?wc) xs = Pxx"
    using moments(3) shape wc by (simp add: weighted_cov_1x1)
  have sxq: "dot (map2 (*) xs ?wc) qs = 0"
    using moments(4) shape wc by (simp add: weighted_cov_1x1)
  have sqq: "dot (map2 (*) qs ?wc) qs = R"
    using moments(5) shape wc by (simp add: weighted_cov_1x1)
  have sqx: "dot (map2 (*) qs ?wc) xs = 0"
    using sxq dot_scale_sym [of qs ?wc xs] by simp
  have pY: "spec_p_Y quad ?f pX pQ i =
      \<lparr>points_matrix = [map2 (+) xs qs], mean_weights = ?wm, covariance_weights = ?wc\<rparr>"
    using shape by (simp add: spec_p_Y_def quad propagate_sum_row)
  have my: "dot (map2 (+) xs qs) ?wm = 0"
    using shape(3) mx mq by (simp add: dot_add_left)
  show mean_y: "spec_mean_y quad ?f pX pQ i = [0]"
    by (simp add: spec_mean_y_def pY weighted_mean_row my)
  have cY: "centered_points (spec_p_Y quad ?f pX pQ i) = [map2 (+) xs qs]"
    by (simp add: pY centered_points_row my)
  have len: "length (map2 (+) xs qs) = length ?wc" "length xs = length ?wc" "length xs = length qs"
    using shape by simp_all
  show cxx: "spec_c_xx pX = [[Pxx]]"
    using moments(3) by (simp add: spec_c_xx_def shape(1))
  have cxy: "spec_c_xy quad ?f pX pQ i = [[Pxx]]"
    unfolding spec_c_xy_def cY shape(1)
    using len wc sxx sxq by (simp add: weighted_cov_1x1 dot_add_right del: map_map)
  have cyy: "spec_c_yy quad ?f pX pQ i = [[Pxx + R]]"
    unfolding spec_c_yy_def cY
    using len wc sxx sxq sqx sqq
    by (simp add: weighted_cov_1x1 dot_add_right dot_add_left scale_add del: map_map)
  show A: "spec_A inv_mat quad ?f pX pQ i = [[1]]"
    using nz by (simp add: spec_A_def cxy cxx inv)
  show S: "innovation_cov inv_mat quad ?f pX pQ i = [[R]]"
    using nz by (simp add: innovation_cov_def cxy cyy cxx inv)
  show "spec_T inv_mat quad ?f pX pQ i = [[1 / R]]"
    using nz by (simp add: spec_T_def A S inv)
qed

section \<open>The loop, step by step\<close>

lemma cov_weighted: "cov st a b = weighted_cov (covariance_weights (p_X st)) a b"
  by (simp add: cov_def weighted_cov_def)

lemma observation_set_id: "observation (set_id i m) = observation_fn m i"
  by (rule ext)+ (simp add: observation_def set_id_def)

lemma sensor_step_ok:
  assumes "slice_ok quad (local_fn st) (p_X st) (p_Q st) y i"
  shows "sensor_step inv_mat quad y (points_matrix (p_X st)) (inv_mat (spec_c_xx (p_X st))) i (st, C, D) =
     Inr (visited quad i st,
          mat_add C (C_term inv_mat quad (local_fn st) (p_X st) (p_Q st) i),
          vec_add D (D_term inv_mat quad (local_fn st) (p_X st) (p_Q st) y i))"
  using assms
  by (simp add: sensor_step_def Let_def observation_set_id cov_weighted visited_def local_fn_def
      C_term_def D_term_def spec_T_def spec_A_def innovation_cov_def spec_c_xx_def spec_c_xy_def
      spec_c_yy_def spec_mean_y_def spec_p_Y_def slice_ok_def middleRows_def measurement_slice_def
      points_def)

lemma sensor_step_fail:
  assumes "\<not> slice_ok quad (local_fn st) (p_X st) (p_Q st) y i"
  shows "sensor_step inv_mat quad y X cinv i (st, C, D) = Inl (IndexOutOfRange, visited quad i st)"
  using assms
  by (simp add: sensor_step_def Let_def observation_set_id cov_weighted visited_def local_fn_def
      spec_mean_y_def spec_p_Y_def slice_ok_def middleRows_def points_def)

lemma visited_simps [simp]:
  "p_X (visited quad i st) = p_X st"
  "p_Q (visited quad i st) = p_Q st"
  "noise_distr (visited quad i st) = noise_distr st"
  "posterior_belief (visited quad i st) = posterior_belief st"
  "count_local_models (obsrv_function (visited quad i st)) = count_local_models (obsrv_function st)"
  "local_fn (visited quad i st) = local_fn st"
  "sensor_id (local_obsrv_model (obsrv_function (visited quad i st))) = int i"
  by (simp_all add: visited_def set_id_def local_fn_def)

lemma fold_visited_simps [simp]:
  "p_X (fold (visited quad) js st) = p_X st"
  "p_Q (fold (visited quad) js st) = p_Q st"
  "noise_distr (fold (visited quad) js st) = noise_distr st"
  "posterior_belief (fold (visited quad) js st) = posterior_belief st"
  "count_local_models (obsrv_function (fold (visited quad) js st)) = count_local_models (obsrv_function st)"
  "local_fn (fold (visited quad) js st) = local_fn st"
  by (induction js arbitrary: st; simp)+

lemma fold_visited_id:
  "js \<noteq> [] \<Longrightarrow>
     sensor_id (local_obsrv_model (obsrv_function (fold (visited quad) js st))) = int (last js)"
  by (induction js arbitrary: st) auto

lemma fusion_loop_ok:
  assumes "\<forall>i \<in> set js. slice_ok quad (local_fn st) (p_X st) (p_Q st) y i"
  shows "fusion_loop inv_mat quad y (points_matrix (p_X st)) (inv_mat (spec_c_xx (p_X st))) js (st, C, D) =
     Inr (fold (visited quad) js st,
          foldl mat_add C (map (C_term inv_mat quad (local_fn st) (p_X st) (p_Q st)) js),
          foldl vec_add D (map (D_term inv_mat quad (local_fn st) (p_X st) (p_Q st) y) js))"
  using assms
proof (induction js arbitrary: st C D)
  case Nil
  then show ?case by simp
next
  case (Cons i js)
  have ok: "slice_ok quad (local_fn st) (p_X st) (p_Q st) y i"
    using Cons.prems by simp
  have rest: "\<forall>k \<in> set js. slice_ok quad (local_fn (visited quad i st))
      (p_X (visited quad i st)) (p_Q (visited quad i st)) y k"
    using Cons.prems by simp
  show ?case
    using Cons.IH [OF rest] by (simp add: sensor_step_ok [OF ok])
qed

lemma fusion_loop_fail:
  assumes "\<exists>i \<in> set js. \<not> slice_ok quad (local_fn st) (p_X st) (p_Q st) y i"
  shows "\<exists>s'. fusion_loop inv_mat quad y (points_matrix (p_X st)) (inv_mat (spec_c_xx (p_X st))) js (st, C, D) =
       Inl (IndexOutOfRange, s') \<and>
     posterior_belief s' = posterior_belief st \<and> p_X s' = p_X st \<and> p_Q s' = p_Q st \<and>
     noise_distr s' = noise_distr st"
  using assms
proof (induction js arbitrary: st C D)
  case Nil
  then show ?case by simp
next
  case (Cons i js)
  show ?case
  proof (cases "slice_ok quad (local_fn st) (p_X st) (p_Q st) y i")
    case True
    with Cons.prems have rest: "\<exists>k \<in> set js. \<not> slice_ok quad (local_fn (visited quad i st))
      (p_X (visited quad i st)) (p_Q (visited quad i st)) y k"
      by auto
    show ?thesis
      using Cons.IH [OF rest] by (simp add: sensor_step_ok [OF True])
  next
    case False
    then show ?thesis by (simp add: sensor_step_fail)
  qed
qed

text \<open>The call, from the state in which the loop starts.\<close>

lemma transform_ok_simps:
  assumes "transform_to_points quad prior (noise_distr st) = Inr pts"
  shows "state_points quad prior st = snd (center (fst pts))"
    and "noise_points quad prior st = snd pts"
    and "state_mean quad prior st = weighted_mean (fst pts)"
  using assms by (simp_all add: state_points_def noise_points_def state_mean_def)

lemma update_p_Q_p_X:
  "(st :: update_state)\<lparr>p_Q := b, p_X := a\<rparr> = st\<lparr>p_X := a, p_Q := b\<rparr>"
  by (cases st) simp

lemma update_in_order_unfold:
  assumes "transform_to_points quad prior (noise_distr st) = Inr pts"
  shows "update_in_order js inv_mat quad prior y st =
      (case fusion_loop inv_mat quad y
              (points_matrix (p_X (st\<lparr>p_X := state_points quad prior st, p_Q := noise_points quad prior st\<rparr>)))
              (inv_mat (spec_c_xx (p_X (st\<lparr>p_X := state_points quad prior st, p_Q := noise_points quad prior st\<rparr>)))) js
              (st\<lparr>p_X := state_points quad prior st, p_Q := noise_points quad prior st\<rparr>,
               inv_mat (spec_c_xx (p_X (st\<lparr>p_X := state_points quad prior st, p_Q := noise_points quad prior st\<rparr>))),
               setZero (length (points_matrix (state_points quad prior st)))) of
         Inl e \<Rightarrow> Inl e
       | Inr (st1, C1, D1) \<Rightarrow>
           Inr (st1\<lparr>posterior_belief := (posterior_belief st1)
                  \<lparr>covariance := inv_mat C1,
                   mean := vec_add (state_mean quad prior st) (mat_vec (inv_mat C1) D1)\<rparr>\<rparr>))"
  unfolding transform_ok_simps [OF assms]
  by (simp add: update_in_order_def assms Let_def cov_weighted spec_c_xx_def points_def
      update_p_Q_p_X split: sum.split prod.split)

lemma update_in_order_transform_fail:
  assumes "transform_to_points quad prior (noise_distr st) = Inl e"
  shows "update_in_order js inv_mat quad prior y st = Inl (e, st)"
  using assms by (simp add: update_in_order_def)

lemma update_in_order_ok:
  assumes tr: "transform_to_points quad prior (noise_distr st) = Inr pts"
    and sl: "\<forall>i \<in> set js. slice_ok quad (local_fn st) (state_points quad prior st) (noise_points quad prior st) y i"
  shows "update_in_order js inv_mat quad prior y st =
     Inr ((fold (visited quad) js
             (st\<lparr>p_X := state_points quad prior st, p_Q := noise_points quad prior st\<rparr>))
          \<lparr>posterior_belief :=
             \<lparr>mean = vec_add (state_mean quad prior st)
                 (mat_vec
                    (inv_mat (information_matrix inv_mat quad (local_fn st) (state_points quad prior st)
                       (noise_points quad prior st) js))
                    (information_vector inv_mat quad (local_fn st) (state_points quad prior st)
                       (noise_points quad prior st) y js)),
              covariance =
                 inv_mat (information_matrix inv_mat quad (local_fn st) (state_points quad prior st)
                   (noise_points quad prior st) js)\<rparr>\<rparr>)"
proof -
  let ?st0 = "st\<lparr>p_X := state_points quad prior st, p_Q := noise_points quad prior st\<rparr>"
  have f: "local_fn ?st0 = local_fn st" by (simp add: local_fn_def)
  have ok: "\<forall>i \<in> set js. slice_ok quad (local_fn ?st0) (p_X ?st0) (p_Q ?st0) y i"
    using sl by (simp add: f)
  show ?thesis
    unfolding update_in_order_unfold [OF tr] fusion_loop_ok [OF ok]
    by (simp add: information_matrix_def information_vector_def f)
qed

lemma update_in_order_fail:
  assumes tr: "transform_to_points quad prior (noise_distr st) = Inr pts"
    and sl: "\<exists>i \<in> set js. \<not> slice_ok quad (local_fn st) (state_points quad prior st) (noise_points quad prior st) y i"
  shows "\<exists>s'. update_in_order js inv_mat quad prior y st = Inl (IndexOutOfRange, s') \<and>
     posterior_belief s' = posterior_belief st \<and> p_X s' = state_points quad prior st \<and>
     p_Q s' = noise_points quad prior st \<and> noise_distr s' = noise_distr st"
proof -
  let ?st0 = "st\<lparr>p_X := state_points quad prior st, p_Q := noise_points quad prior st\<rparr>"
  have f: "local_fn ?st0 = local_fn st" by (simp add: local_fn_def)
  have bad: "\<exists>i \<in> set js. \<not> slice_ok quad (local_fn ?st0) (p_X ?st0) (p_Q ?st0) y i"
    using sl by (simp add: f)
  obtain s' where s': "fusion_loop inv_mat quad y (points_matrix (p_X ?st0)) (inv_mat (spec_c_xx (p_X ?st0))) js
        (?st0, inv_mat (spec_c_xx (p_X ?st0)), setZero (length (points_matrix (state_points quad prior st)))) = Inl (IndexOutOfRange, s')"
      "posterior_belief s' = posterior_belief ?st0" "p_X s' = p_X ?st0" "p_Q s' = p_Q ?st0"
      "noise_distr s' = noise_distr ?st0"
    using fusion_loop_fail [OF bad] by blast
  show ?thesis
    unfolding update_in_order_unfold [OF tr] s'(1) using s'(2-) by simp
qed

section \<open>The scalar unscented rule\<close>

lemma unscented_weights_length [simp]:
  "length (unscented_weights g) = 5" "unscented_weights g \<noteq> []"
  by (simp_all add: unscented_weights_def)

lemma unscented_scalar_fields [simp]:
  "transform_to_points (unscented_scalar g) = unscented_scalar_points g"
  "propergate_points (unscented_scalar g) = propagate_columnwise"
  by (simp_all add: unscented_scalar_def)

lemma unscented_scalar_ok:
  assumes "0 < P0" "0 < R"
  shows "unscented_scalar_points g \<lparr>mean = [x0], covariance = [[P0]]\<rparr> \<lparr>mean = [q0], covariance = [[R]]\<rparr> =
     Inr (\<lparr>points_matrix = [[x0, x0 + g * sqrt P0, x0 - g * sqrt P0, x0, x0]],
           mean_weights = unscented_weights g, covariance_weights = unscented_weights g\<rparr>,
          \<lparr>points_matrix = [[q0, q0, q0, q0 + g * sqrt R, q0 - g * sqrt R]],
           mean_weights = unscented_weights g, covariance_weights = unscented_weights g\<rparr>)"
  using assms by (simp add: unscented_scalar_points_def Let_def)

lemma unscented_scalar_singular:
  assumes "P0 \<le> 0 \<or> R \<le> 0"
  shows "unscented_scalar_points g \<lparr>mean = [x0], covariance = [[P0]]\<rparr> \<lparr>mean = [q0], covariance = [[R]]\<rparr> =
     Inl SingularCovariance"
  using assms by (auto simp add: unscented_scalar_points_def)

lemma unscented_mean:
  assumes "g \<noteq> 0"
  shows "dot [x0, x0 + a, x0 - a, x0, x0] (unscented_weights g) = x0"
    and "dot [q0, q0, q0, q0 + c, q0 - c] (unscented_weights g) = q0"
  using assms by (simp_all add: unscented_weights_def field_simps)

text \<open>The members \<open>p_X\<close> and \<open>p_Q\<close> when the loop starts, and the state mean.\<close>

lemma unscented_points:
  assumes "g \<noteq> 0" "0 < P0" "0 < R"
    and "noise_distr st = \<lparr>mean = [q0], covariance = [[R]]\<rparr>"
  shows "state_points (unscented_scalar g) \<lparr>mean = [x0], covariance = [[P0]]\<rparr> st =
      \<lparr>points_matrix = [[0, g * sqrt P0, - (g * sqrt P0), 0, 0]],
       mean_weights = unscented_weights g, covariance_weights = unscented_weights g\<rparr>"
    and "noise_points (unscented_scalar g) \<lparr>mean = [x0], covariance = [[P0]]\<rparr> st =
      \<lparr>points_matrix = [[q0, q0, q0, q0 + g * sqrt R, q0 - g * sqrt R]],
       mean_weights = unscented_weights g, covariance_weights = unscented_weights g\<rparr>"
    and "state_mean (unscented_scalar g) \<lparr>mean = [x0], covariance = [[P0]]\<rparr> st = [x0]"
proof -
  let ?b = "\<lparr>mean = [x0], covariance = [[P0]]\<rparr>"
  let ?pX = "\<lparr>points_matrix = [[x0, x0 + g * sqrt P0, x0 - g * sqrt P0, x0, x0]],
           mean_weights = unscented_weights g, covariance_weights = unscented_weights g\<rparr>"
  let ?pQ = "\<lparr>points_matrix = [[q0, q0, q0, q0 + g * sqrt R, q0 - g * sqrt R]],
           mean_weights = unscented_weights g, covariance_weights = unscented_weights g\<rparr>"
  have tr: "transform_to_points (unscented_scalar g) ?b (noise_distr st) = Inr (?pX, ?pQ)"
    unfolding assms(4) unscented_scalar_fields by (rule unscented_scalar_ok [OF assms(2,3)])
  have m: "weighted_mean ?pX = [x0]"
    by (simp add: weighted_mean_row unscented_mean(1) [OF assms(1)])
  have c: "centered_points ?pX = [[0, g * sqrt P0, - (g * sqrt P0), 0, 0]]"
    using m by (simp add: centered_points_def)
  show "state_points (unscented_scalar g) ?b st =
      \<lparr>points_matrix = [[0, g * sqrt P0, - (g * sqrt P0), 0, 0]],
       mean_weights = unscented_weights g, covariance_weights = unscented_weights g\<rparr>"
    unfolding transform_ok_simps(1) [OF tr] by (simp add: center_def c)
  show "noise_points (unscented_scalar g) ?b st = ?pQ"
    unfolding transform_ok_simps(2) [OF tr] by simp
  show "state_mean (unscented_scalar g) ?b st = [x0]"
    unfolding transform_ok_simps(3) [OF tr] using m by simp
qed

lemma unscented_transform_succeeds:
  assumes "0 < P0" "0 < R" "noise_distr st = \<lparr>mean = [q0], covariance = [[R]]\<rparr>"
  shows "\<exists>pts. transform_to_points (unscented_scalar g) \<lparr>mean = [x0], covariance = [[P0]]\<rparr>
      (noise_distr st) = Inr pts"
  unfolding assms(3) unscented_scalar_fields unscented_scalar_ok [OF assms(1,2)] by simp

lemma unscented_scalar_cov:
  assumes "g \<noteq> 0" "0 \<le> P0" "0 \<le> R"
  shows "weighted_cov (unscented_weights g) [[0, g * sqrt P0, - (g * sqrt P0), 0, 0]]
           [[0, g * sqrt P0, - (g * sqrt P0), 0, 0]] = [[P0]]"
    and "weighted_cov (unscented_weights g) [[0, g * sqrt P0, - (g * sqrt P0), 0, 0]]
           [[0, 0, 0, g * sqrt R, - (g * sqrt R)]] = [[0]]"
    and "weighted_cov (unscented_weights g) [[0, 0, 0, g * sqrt R, - (g * sqrt R)]]
           [[0, 0, 0, g * sqrt R, - (g * sqrt R)]] = [[R]]"
  using assms
  by (simp_all add: weighted_cov_1x1 unscented_weights_def field_simps power2_eq_square)

lemma foldl_mat_add_1x1:
  "foldl mat_add [[c]] (replicate n [[t]]) = [[c + real n * t]]"
  by (induction n arbitrary: c) (simp_all add: algebra_simps)

lemma foldl_vec_add_1:
  "foldl vec_add [c] (map (\<lambda>v. [v]) vs) = [c + sum_list vs]"
  by (induction vs arbitrary: c) (simp_all add: vec_add_def algebra_simps)

lemma C_term_1x1:
  assumes "spec_T inv_mat quad f pX pQ i = [[t]]" "spec_A inv_mat quad f pX pQ i = [[a]]"
  shows "C_term inv_mat quad f pX pQ i = [[t * a]]"
  using assms by (simp add: C_term_def)

lemma D_term_1x1:
  assumes "spec_T inv_mat quad f pX pQ i = [[t]]" "spec_mean_y quad f pX pQ i = [m]"
    "i < length y"
  shows "D_term inv_mat quad f pX pQ y i = [t * (y ! i - m)]"
proof -
  have "take (Suc 0) (drop i y) = [y ! i]"
    using assms(3) by (simp add: take_Suc_conv_app_nth [of 0] hd_drop_conv_nth take_Suc)
  then show ?thesis
    using assms by (simp add: D_term_def measurement_slice_def vec_sub_def)
qed

text \<open>The terms of a sensor \<open>y = x + w\<close> under the scalar unscented rule.\<close>

lemma unscented_identity_terms:
  fixes x0 P0 R g :: real
  assumes "g \<noteq> 0" "0 < P0" "0 < R"
    and "noise_distr st = \<lparr>mean = [0], covariance = [[R]]\<rparr>"
    and "\<forall>a. a \<noteq> 0 \<longrightarrow> inv_mat [[a]] = [[1 / a]]"
  shows "spec_c_xx (state_points (unscented_scalar g) \<lparr>mean = [x0], covariance = [[P0]]\<rparr> st) = [[P0]]"
    and "state_mean (unscented_scalar g) \<lparr>mean = [x0], covariance = [[P0]]\<rparr> st = [x0]"
    and "spec_mean_y (unscented_scalar g) (\<lambda>i x w. vec_add x w)
           (state_points (unscented_scalar g) \<lparr>mean = [x0], covariance = [[P0]]\<rparr> st)
           (noise_points (unscented_scalar g) \<lparr>mean = [x0], covariance = [[P0]]\<rparr> st) i = [0]"
    and "spec_A inv_mat (unscented_scalar g) (\<lambda>i x w. vec_add x w)
           (state_points (unscented_scalar g) \<lparr>mean = [x0], covariance = [[P0]]\<rparr> st)
           (noise_points (unscented_scalar g) \<lparr>mean = [x0], covariance = [[P0]]\<rparr> st) i = [[1]]"
    and "innovation_cov inv_mat (unscented_scalar g) (\<lambda>i x w. vec_add x w)
           (state_points (unscented_scalar g) \<lparr>mean = [x0], covariance = [[P0]]\<rparr> st)
           (noise_points (unscented_scalar g) \<lparr>mean = [x0], covariance = [[P0]]\<rparr> st) i = [[R]]"
    and "spec_T inv_mat (unscented_scalar g) (\<lambda>i x w. vec_add x w)
           (state_points (unscented_scalar g) \<lparr>mean = [x0], covariance = [[P0]]\<rparr> st)
           (noise_points (unscented_scalar g) \<lparr>mean = [x0], covariance = [[P0]]\<rparr> st) i = [[1 / R]]"
proof -
  let ?b = "\<lparr>mean = [x0], covariance = [[P0]]\<rparr>"
  let ?xs = "[0, g * sqrt P0, - (g * sqrt P0), 0, 0]"
  let ?qs = "[0, 0, 0, g * sqrt R, - (g * sqrt R)]"
  let ?pX = "\<lparr>points_matrix = [?xs],
       mean_weights = unscented_weights g, covariance_weights = unscented_weights g\<rparr>"
  let ?pQ = "\<lparr>points_matrix = [?qs],
       mean_weights = unscented_weights g, covariance_weights = unscented_weights g\<rparr>"
  have sp: "state_points (unscented_scalar g) ?b st = ?pX"
    and np: "noise_points (unscented_scalar g) ?b st = ?pQ"
    using unscented_points(1,2) [OF assms(1,2,3,4), of x0] by simp_all
  have quad: "propergate_points (unscented_scalar g) = propagate_columnwise"
    by simp
  have P: "0 \<le> P0" "P0 \<noteq> 0" "0 \<le> R" "R \<noteq> 0" using assms(2,3) by simp_all
  have mX: "weighted_mean ?pX = [0]"
    using unscented_mean(1) [OF assms(1), of 0 "g * sqrt P0"] by (simp add: weighted_mean_row)
  have mQ: "weighted_mean ?pQ = [0]"
    using unscented_mean(2) [OF assms(1), of 0 "g * sqrt R"] by (simp add: weighted_mean_row)
  have c: "weighted_cov (covariance_weights ?pX) [?xs] [?xs] = [[P0]]"
      "weighted_cov (covariance_weights ?pX) [?xs] [?qs] = [[0]]"
      "weighted_cov (covariance_weights ?pX) [?qs] [?qs] = [[R]]"
    using unscented_scalar_cov [OF assms(1) P(1) P(3)] by simp_all
  note T = scalar_terms [where pX = ?pX and pQ = ?pQ and xs = ?xs and qs = ?qs
      and Pxx = P0 and R = R and quad = "unscented_scalar g" and inv_mat = inv_mat,
      OF _ _ _ _ _ _ _ mX mQ c quad assms(5) P(2) P(4)]
  show "spec_c_xx (state_points (unscented_scalar g) ?b st) = [[P0]]"
    unfolding sp by (rule T(1)) simp_all
  show "state_mean (unscented_scalar g) ?b st = [x0]"
    by (rule unscented_points(3) [OF assms(1,2,3,4)])
  show "spec_mean_y (unscented_scalar g) (\<lambda>i x w. vec_add x w)
           (state_points (unscented_scalar g) ?b st) (noise_points (unscented_scalar g) ?b st) i = [0]"
    unfolding sp np by (rule T(2)) simp_all
  show "spec_A inv_mat (unscented_scalar g) (\<lambda>i x w. vec_add x w)
           (state_points (unscented_scalar g) ?b st) (noise_points (unscented_scalar g) ?b st) i = [[1]]"
    unfolding sp np by (rule T(3)) simp_all
  show "innovation_cov inv_mat (unscented_scalar g) (\<lambda>i x w. vec_add x w)
           (state_points (unscented_scalar g) ?b st) (noise_points (unscented_scalar g) ?b st) i = [[R]]"
    unfolding sp np by (rule T(4)) simp_all
  show "spec_T inv_mat (unscented_scalar g) (\<lambda>i x w. vec_add x w)
           (state_points (unscented_scalar g) ?b st) (noise_points (unscented_scalar g) ?b st) i = [[1 / R]]"
    unfolding sp np by (rule T(5)) simp_all
qed

lemma inverse_1x1_reciprocal: "\<forall>a. a \<noteq> 0 \<longrightarrow> inverse_1x1 s [[a]] = [[1 / a]]"
  by (simp add: inverse_1x1_def)



lemma sum_list_scaled_nth:
  "sum_list (map (\<lambda>i. c * (y ! i - m)) [0..<length y]) = c * (sum_list y - real (length y) * (m::real))"
proof -
  have "sum_list (map (\<lambda>i. c * (y ! i - m)) [0..<length y]) =
      sum_list (map (\<lambda>v. c * (v - m)) (map ((!) y) [0..<length y]))"
    by (simp add: o_def)
  also have "\<dots> = sum_list (map (\<lambda>v. c * (v - m)) y)"
    by (simp only: map_nth)
  also have "\<dots> = c * (sum_list y - real (length y) * m)"
    by (induction y) (simp_all add: algebra_simps)
  finally show ?thesis .
qed

text \<open>With the scalar unscented rule and sensors \<open>y = x + w\<close> every observation mean has one row.\<close>

lemma unscented_identity_mean_y:
  assumes "g \<noteq> 0" "0 < P0" "0 < R" "noise_distr st = \<lparr>mean = [0], covariance = [[R]]\<rparr>"
  shows "spec_mean_y (unscented_scalar g) (\<lambda>i x w. vec_add x w)
           (state_points (unscented_scalar g) \<lparr>mean = [x0], covariance = [[P0]]\<rparr> st)
           (noise_points (unscented_scalar g) \<lparr>mean = [x0], covariance = [[P0]]\<rparr> st) i = [0]"
  by (rule unscented_identity_terms(3) [OF assms inverse_1x1_reciprocal [of 0]])

lemma initial_state_simps [simp]:
  "noise_distr (initial_state m n b) = n"
  "posterior_belief (initial_state m n b) = b"
  "obsrv_function (initial_state m n b) = m"
  "count_local_models (identity_sensors k) = k"
  "sensor_id (local_obsrv_model (identity_sensors k)) = 0"
  by (simp_all add: initial_state_def identity_sensors_def)

lemma identity_local_fn:
  "local_fn (initial_state (identity_sensors k) n b) = (\<lambda>i x w. vec_add x w)"
  by (simp add: initial_state_def identity_sensors_def local_fn_def)

lemma identity_slice_ok:
  assumes "g \<noteq> 0" "0 < P0" "0 < R" "i < length y"
  shows "slice_ok (unscented_scalar g) (local_fn (initial_state (identity_sensors k) \<lparr>mean = [0], covariance = [[R]]\<rparr> b))
      (state_points (unscented_scalar g) \<lparr>mean = [x0], covariance = [[P0]]\<rparr>
         (initial_state (identity_sensors k) \<lparr>mean = [0], covariance = [[R]]\<rparr> b))
      (noise_points (unscented_scalar g) \<lparr>mean = [x0], covariance = [[P0]]\<rparr>
         (initial_state (identity_sensors k) \<lparr>mean = [0], covariance = [[R]]\<rparr> b)) y i"
  using assms by (simp add: slice_ok_def identity_local_fn unscented_identity_mean_y)

lemma identity_slice_bad:
  assumes "g \<noteq> 0" "0 < P0" "0 < R" "length y \<le> i"
  shows "\<not> slice_ok (unscented_scalar g) (local_fn (initial_state (identity_sensors k) \<lparr>mean = [0], covariance = [[R]]\<rparr> b))
      (state_points (unscented_scalar g) \<lparr>mean = [x0], covariance = [[P0]]\<rparr>
         (initial_state (identity_sensors k) \<lparr>mean = [0], covariance = [[R]]\<rparr> b))
      (noise_points (unscented_scalar g) \<lparr>mean = [x0], covariance = [[P0]]\<rparr>
         (initial_state (identity_sensors k) \<lparr>mean = [0], covariance = [[R]]\<rparr> b)) y i"
  using assms by (simp add: slice_ok_def identity_local_fn unscented_identity_mean_y)

lemma fold_visited_p_Y:
  "js \<noteq> [] \<Longrightarrow>
     p_Y (fold (visited quad) js st) =
       snd (center (spec_p_Y quad (local_fn st) (p_X st) (p_Q st) (last js)))"
  by (induction js arbitrary: st) (auto simp add: visited_def local_fn_def set_id_def)

text \<open>The outcome of a call, by whether the transform succeeds and every slice is in range.\<close>

lemma update_in_order_cases:
  obtains (transform) e where "transform_to_points quad prior (noise_distr st) = Inl e"
      "update_in_order js inv_mat quad prior y st = Inl (e, st)"
  | (slice) pts s' where "transform_to_points quad prior (noise_distr st) = Inr pts"
      "\<not> list_all (slice_ok quad (local_fn st) (state_points quad prior st) (noise_points quad prior st) y) js"
      "update_in_order js inv_mat quad prior y st = Inl (IndexOutOfRange, s')"
      "posterior_belief s' = posterior_belief st" "p_X s' = state_points quad prior st"
      "p_Q s' = noise_points quad prior st" "noise_distr s' = noise_distr st"
  | (ok) pts where "transform_to_points quad prior (noise_distr st) = Inr pts"
      "list_all (slice_ok quad (local_fn st) (state_points quad prior st) (noise_points quad prior st) y) js"
      "update_in_order js inv_mat quad prior y st =
        Inr ((fold (visited quad) js
             (st\<lparr>p_X := state_points quad prior st, p_Q := noise_points quad prior st\<rparr>))
          \<lparr>posterior_belief :=
             \<lparr>mean = vec_add (state_mean quad prior st)
                 (mat_vec
                    (inv_mat (information_matrix inv_mat quad (local_fn st) (state_points quad prior st)
                       (noise_points quad prior st) js))
                    (information_vector inv_mat quad (local_fn st) (state_points quad prior st)
                       (noise_points quad prior st) y js)),
              covariance =
                 inv_mat (information_matrix inv_mat quad (local_fn st) (state_points quad prior st)
                   (noise_points quad prior st) js)\<rparr>\<rparr>)"
proof (cases "transform_to_points quad prior (noise_distr st)")
  case (Inl e)
  then show ?thesis
    using transform update_in_order_transform_fail by blast
next
  case (Inr pts)
  show ?thesis
  proof (cases "list_all (slice_ok quad (local_fn st) (state_points quad prior st) (noise_points quad prior st) y) js")
    case True
    then have "\<forall>i \<in> set js. slice_ok quad (local_fn st) (state_points quad prior st) (noise_points quad prior st) y i"
      by (simp add: list_all_iff)
    from update_in_order_ok [OF Inr this] show ?thesis
      using ok Inr True by blast
  next
    case False
    then have "\<exists>i \<in> set js. \<not> slice_ok quad (local_fn st) (state_points quad prior st) (noise_points quad prior st) y i"
      by (simp add: list_all_iff)
    from update_in_order_fail [OF Inr this, of inv_mat] show ?thesis
      using slice Inr False by blast
  qed
qed

lemma update_in_order_isl:
  "isl (update_in_order js inv_mat quad prior y st) =
     (isl (transform_to_points quad prior (noise_distr st)) \<or>
      \<not> list_all (slice_ok quad (local_fn st) (state_points quad prior st) (noise_points quad prior st) y) js)"
  by (cases rule: update_in_order_cases [of quad prior st js inv_mat y]) simp_all

lemma update_in_order_posterior:
  "posterior_belief (final_state (update_in_order js inv_mat quad prior y st)) =
     (if isl (update_in_order js inv_mat quad prior y st) then posterior_belief st
      else \<lparr>mean = vec_add (state_mean quad prior st)
                 (mat_vec
                    (inv_mat (information_matrix inv_mat quad (local_fn st) (state_points quad prior st)
                       (noise_points quad prior st) js))
                    (information_vector inv_mat quad (local_fn st) (state_points quad prior st)
                       (noise_points quad prior st) y js)),
            covariance =
                 inv_mat (information_matrix inv_mat quad (local_fn st) (state_points quad prior st)
                   (noise_points quad prior st) js)\<rparr>)"
  by (cases rule: update_in_order_cases [of quad prior st js inv_mat y])
    (simp_all add: final_state_def)

lemma update_in_order_points:
  "p_Q (final_state (update_in_order js inv_mat quad prior y st)) = noise_points quad prior st"
  "p_X (final_state (update_in_order js inv_mat quad prior y st)) = state_points quad prior st"
  "noise_distr (final_state (update_in_order js inv_mat quad prior y st)) = noise_distr st"
  by (cases rule: update_in_order_cases [of quad prior st js inv_mat y];
      simp add: final_state_def state_points_def noise_points_def)+

lemma identity_update_succeeds:
  assumes "g \<noteq> 0" "0 < P0" "0 < R" "nat k \<le> length y"
  shows "\<not> isl (multi_sensor_update inv_mat (unscented_scalar g) \<lparr>mean = [x0], covariance = [[P0]]\<rparr> y
      (initial_state (identity_sensors k) \<lparr>mean = [0], covariance = [[R]]\<rparr> b))"
proof -
  let ?st = "initial_state (identity_sensors k) \<lparr>mean = [0], covariance = [[R]]\<rparr> b"
  have "list_all (slice_ok (unscented_scalar g) (local_fn ?st)
      (state_points (unscented_scalar g) \<lparr>mean = [x0], covariance = [[P0]]\<rparr> ?st)
      (noise_points (unscented_scalar g) \<lparr>mean = [x0], covariance = [[P0]]\<rparr> ?st) y)
      [0..<nat k]"
    unfolding list_all_iff
  proof
    fix i assume "i \<in> set [0..<nat k]"
    then have "i < length y" using assms(4) by simp
    then show "slice_ok (unscented_scalar g) (local_fn ?st)
      (state_points (unscented_scalar g) \<lparr>mean = [x0], covariance = [[P0]]\<rparr> ?st)
      (noise_points (unscented_scalar g) \<lparr>mean = [x0], covariance = [[P0]]\<rparr> ?st) y i"
      by (rule identity_slice_ok [OF assms(1,2,3)])
  qed
  moreover have "\<not> isl (transform_to_points (unscented_scalar g) \<lparr>mean = [x0], covariance = [[P0]]\<rparr>
      (noise_distr ?st))"
    using unscented_transform_succeeds [OF assms(2,3), of ?st 0 g x0] by auto
  ultimately show ?thesis
    unfolding multi_sensor_update_def update_in_order_isl by simp
qed

lemma identity_update_fails:
  assumes "g \<noteq> 0" "0 < P0" "0 < R" "length y < nat k"
  shows "isl (multi_sensor_update inv_mat (unscented_scalar g) \<lparr>mean = [x0], covariance = [[P0]]\<rparr> y
      (initial_state (identity_sensors k) \<lparr>mean = [0], covariance = [[R]]\<rparr> b))"
proof -
  let ?st = "initial_state (identity_sensors k) \<lparr>mean = [0], covariance = [[R]]\<rparr> b"
  have "length y \<in> set [0..<nat k]" using assms(4) by simp
  moreover have "\<not> slice_ok (unscented_scalar g) (local_fn ?st)
      (state_points (unscented_scalar g) \<lparr>mean = [x0], covariance = [[P0]]\<rparr> ?st)
      (noise_points (unscented_scalar g) \<lparr>mean = [x0], covariance = [[P0]]\<rparr> ?st) y (length y)"
    by (rule identity_slice_bad [OF assms(1,2,3)]) simp
  ultimately have "\<not> list_all (slice_ok (unscented_scalar g) (local_fn ?st)
      (state_points (unscented_scalar g) \<lparr>mean = [x0], covariance = [[P0]]\<rparr> ?st)
      (noise_points (unscented_scalar g) \<lparr>mean = [x0], covariance = [[P0]]\<rparr> ?st) y)
      [0..<nat k]"
    unfolding list_all_iff by blast
  then show ?thesis
    unfolding multi_sensor_update_def update_in_order_isl by simp
qed

text \<open>The result of the scalar scenario with sensors \<open>y = x + w\<close>.\<close>

lemma identity_update_result:
  fixes x0 P0 R g s :: real
  assumes "g \<noteq> 0" "0 < P0" "0 < R"
  shows "\<exists>st'. multi_sensor_update (inverse_1x1 s) (unscented_scalar g)
        \<lparr>mean = [x0], covariance = [[P0]]\<rparr> y
        (initial_state (identity_sensors (int (length y))) \<lparr>mean = [0], covariance = [[R]]\<rparr> b) = Inr st' \<and>
      posterior_belief st' =
        \<lparr>mean = [x0 + 1 / (1 / P0 + real (length y) / R) * (sum_list y / R)],
         covariance = [[1 / (1 / P0 + real (length y) / R)]]\<rparr>"
proof -
  let ?N = "length y"
  let ?b = "\<lparr>mean = [x0], covariance = [[P0]]\<rparr>"
  let ?st = "initial_state (identity_sensors (int ?N)) \<lparr>mean = [0], covariance = [[R]]\<rparr> b"
  let ?q = "unscented_scalar g"
  let ?pX = "state_points ?q ?b ?st" and ?pQ = "noise_points ?q ?b ?st"
  let ?f = "\<lambda>(i::int) x w. vec_add x w"
  let ?inv = "inverse_1x1 s"
  have n: "noise_distr ?st = \<lparr>mean = [0], covariance = [[R]]\<rparr>" by simp
  note t = unscented_identity_terms [OF assms n inverse_1x1_reciprocal [of s], of x0]
  have f: "local_fn ?st = ?f" by (rule identity_local_fn)
  have T: "spec_T ?inv ?q ?f ?pX ?pQ i = [[1 / R]]" for i by (rule t(6))
  have A: "spec_A ?inv ?q ?f ?pX ?pQ i = [[1]]" for i by (rule t(4))
  have my: "spec_mean_y ?q ?f ?pX ?pQ i = [0]" for i by (rule t(3))
  have Cmap: "map (C_term ?inv ?q ?f ?pX ?pQ) [0..<?N] = replicate ?N [[1 / R]]"
  proof -
    have "map (C_term ?inv ?q ?f ?pX ?pQ) [0..<?N] = map (\<lambda>i. [[1 / R]]) [0..<?N]"
      by (rule map_cong) (simp_all add: C_term_1x1 [OF T A])
    then show ?thesis by (simp add: map_replicate_const)
  qed
  have Dmap: "map (D_term ?inv ?q ?f ?pX ?pQ y) [0..<?N] =
      map (\<lambda>v. [v]) (map (\<lambda>i. 1 / R * (y ! i - 0)) [0..<?N])"
    unfolding map_map o_def by (rule map_cong) (simp_all add: D_term_1x1 [OF T my])
  have P: "P0 \<noteq> 0" using assms(2) by simp
  have C: "information_matrix ?inv ?q (local_fn ?st) ?pX ?pQ [0..<?N] = [[1 / P0 + real ?N / R]]"
    using P by (simp add: information_matrix_def f t(1) inverse_1x1_def Cmap foldl_mat_add_1x1)
  have len: "length (points_matrix ?pX) = 1"
    using unscented_points(1) [OF assms n, of x0] by simp
  have "foldl vec_add [0] (map (\<lambda>v. [v]) (map (\<lambda>i. 1 / R * (y ! i - 0)) [0..<?N])) =
      [0 + sum_list (map (\<lambda>i. 1 / R * (y ! i - 0)) [0..<?N])]"
    by (rule foldl_vec_add_1)
  also have "\<dots> = [sum_list y / R]"
    unfolding sum_list_scaled_nth by simp
  finally have D: "information_vector ?inv ?q (local_fn ?st) ?pX ?pQ y [0..<?N] = [sum_list y / R]"
    unfolding information_vector_def f Dmap len by (simp add: setZero_def)
  have pos: "1 / P0 + real ?N / R > 0"
    using assms(2,3) by (simp add: add_pos_nonneg)
  have i1: "inverse_1x1 s [[1 / P0 + real ?N / R]] = [[1 / (1 / P0 + real ?N / R)]]"
    using pos by (simp add: inverse_1x1_def)
  have "\<not> isl (multi_sensor_update ?inv ?q ?b y ?st)"
    by (rule identity_update_succeeds [OF assms]) simp
  then obtain st' where r: "multi_sensor_update ?inv ?q ?b y ?st = Inr st'"
    by (cases "multi_sensor_update ?inv ?q ?b y ?st") auto
  have "posterior_belief (final_state (update_in_order [0..<?N] ?inv ?q ?b y ?st)) =
      \<lparr>mean = [x0 + 1 / (1 / P0 + real ?N / R) * (sum_list y / R)],
       covariance = [[1 / (1 / P0 + real ?N / R)]]\<rparr>"
    unfolding update_in_order_posterior C D i1 t(2)
    using r by (simp add: multi_sensor_update_def)
  then show ?thesis
    using r by (simp add: multi_sensor_update_def final_state_def)
qed

section \<open>Sums in any order\<close>

lemma vec_add_commute: "vec_add u v = vec_add v u"
proof (induction u arbitrary: v)
  case Nil
  then show ?case by simp
next
  case (Cons a u)
  then show ?case by (cases v) (simp_all add: add.commute)
qed

lemma vec_add_assoc: "vec_add (vec_add u v) w = vec_add u (vec_add v w)"
proof (induction u arbitrary: v w)
  case Nil
  then show ?case by simp
next
  case (Cons a u)
  then show ?case by (cases v; cases w) (simp_all add: add.assoc)
qed

lemma mat_add_simps [simp]:
  "mat_add [] B = []" "mat_add A [] = []" "mat_add (r # A) (s # B) = vec_add r s # mat_add A B"
  by (simp_all add: mat_add_def)

lemma mat_add_commute: "mat_add A B = mat_add B A"
proof (induction A arbitrary: B)
  case Nil
  then show ?case by simp
next
  case (Cons r A)
  then show ?case by (cases B) (simp_all add: vec_add_commute)
qed

lemma mat_add_assoc: "mat_add (mat_add A B) E = mat_add A (mat_add B E)"
proof (induction A arbitrary: B E)
  case Nil
  then show ?case by simp
next
  case (Cons r A)
  then show ?case by (cases B; cases E) (simp_all add: vec_add_assoc)
qed

lemma foldl_permuted:
  assumes "\<And>a x y. f (f a x) y = f (f a y) x" "mset xs = mset ys"
  shows "foldl f a xs = foldl f a ys"
proof -
  have "fold (\<lambda>x a. f a x) xs = fold (\<lambda>x a. f a x) ys"
    by (rule fold_multiset_equiv) (auto simp add: assms fun_eq_iff)
  then show ?thesis by (simp add: foldl_conv_fold)
qed

lemma information_matrix_permuted:
  assumes "mset js = mset ks"
  shows "information_matrix inv_mat quad f pX pQ js = information_matrix inv_mat quad f pX pQ ks"
  unfolding information_matrix_def
proof (rule foldl_permuted)
  show "mat_add (mat_add a x) y = mat_add (mat_add a y) x" for a x y
    by (simp add: mat_add_assoc mat_add_commute [of x y])
  show "mset (map (C_term inv_mat quad f pX pQ) js) = mset (map (C_term inv_mat quad f pX pQ) ks)"
    using assms by (metis mset_map)
qed

lemma information_vector_permuted:
  assumes "mset js = mset ks"
  shows "information_vector inv_mat quad f pX pQ y js = information_vector inv_mat quad f pX pQ y ks"
  unfolding information_vector_def
proof (rule foldl_permuted)
  show "vec_add (vec_add a x) z = vec_add (vec_add a z) x" for a x z
    by (simp add: vec_add_assoc vec_add_commute [of x z])
  show "mset (map (D_term inv_mat quad f pX pQ y) js) = mset (map (D_term inv_mat quad f pX pQ y) ks)"
    using assms by (metis mset_map)
qed

lemma update_in_order_permuted:
  assumes "mset js = mset ks"
  shows "posterior_belief (final_state (update_in_order js inv_mat quad prior y st)) =
      posterior_belief (final_state (update_in_order ks inv_mat quad prior y st))"
    and "isl (update_in_order js inv_mat quad prior y st) =
      isl (update_in_order ks inv_mat quad prior y st)"
proof -
  have "set js = set ks" using assms by (rule mset_eq_setD)
  then show i: "isl (update_in_order js inv_mat quad prior y st) =
      isl (update_in_order ks inv_mat quad prior y st)"
    by (simp add: update_in_order_isl list_all_iff)
  show "posterior_belief (final_state (update_in_order js inv_mat quad prior y st)) =
      posterior_belief (final_state (update_in_order ks inv_mat quad prior y st))"
    unfolding update_in_order_posterior i
      information_matrix_permuted [OF assms] information_vector_permuted [OF assms] ..
qed

section \<open>Matrices entry by entry\<close>

lemma is_matD:
  assumes "is_mat p q A"
  shows "0 < p" "0 < q" "length A = p" "\<And>i. i < p \<Longrightarrow> length (A ! i) = q"
    "\<And>r. r \<in> set A \<Longrightarrow> length r = q" "A \<noteq> []"
proof -
  show "0 < p" "0 < q" "length A = p" "A \<noteq> []"
    using assms by (auto simp add: is_mat_def)
  show "length (A ! i) = q" if "i < p" for i
    using assms that by (simp add: is_mat_def list_all_length)
  show "length r = q" if "r \<in> set A" for r
    using assms that by (simp add: is_mat_def list_all_iff)
qed

lemma is_matI:
  assumes "0 < p" "0 < q" "length A = p" "\<And>i. i < p \<Longrightarrow> length (A ! i) = q"
  shows "is_mat p q A"
  using assms by (simp add: is_mat_def list_all_length)

lemma mat_eqI:
  assumes "is_mat p q A" "is_mat p q B" "\<And>i j. i < p \<Longrightarrow> j < q \<Longrightarrow> A ! i ! j = B ! i ! j"
  shows "A = B"
proof (rule nth_equalityI)
  show "length A = length B"
    using assms(1,2) by (simp add: is_matD)
next
  fix i assume "i < length A"
  then have i: "i < p" using assms(1) by (simp add: is_matD)
  show "A ! i = B ! i"
  proof (rule nth_equalityI)
    show "length (A ! i) = length (B ! i)"
      using i assms(1,2) by (simp add: is_matD)
  next
    fix j assume "j < length (A ! i)"
    then have "j < q" using i assms(1) by (simp add: is_matD)
    then show "A ! i ! j = B ! i ! j" using i assms(3) by simp
  qed
qed

lemma cols_is_mat: "is_mat p q A \<Longrightarrow> cols A = q"
  by (rule cols_eq) (auto dest: is_matD)

lemma col_nth:
  assumes "is_mat p q A" "i < p"
  shows "col A j ! i = A ! i ! j"
  using assms by (simp add: col_def is_matD)

lemma col_length: "is_mat p q A \<Longrightarrow> length (col A j) = p"
  by (simp add: col_def is_matD)

lemma dot_sum:
  assumes "length u = q" "length v = q"
  shows "dot u v = (\<Sum>k = 0..<q. u ! k * v ! k)"
  using assms dot_nth [of u v] by simp

lemma mat_mult_is_mat:
  assumes "is_mat p q A" "is_mat q r B"
  shows "is_mat p r (mat_mult A B)"
  using assms by (intro is_matI) (simp_all add: mat_mult_def cols_is_mat is_matD)

lemma mat_mult_nth:
  assumes "is_mat p q A" "is_mat q r B" "i < p" "j < r"
  shows "mat_mult A B ! i ! j = (\<Sum>k = 0..<q. A ! i ! k * B ! k ! j)"
proof -
  have "mat_mult A B ! i ! j = dot (A ! i) (col B j)"
    using assms by (simp add: mat_mult_def cols_is_mat is_matD)
  also have "\<dots> = (\<Sum>k = 0..<q. A ! i ! k * col B j ! k)"
    using assms by (intro dot_sum) (simp_all add: is_matD col_length)
  also have "\<dots> = (\<Sum>k = 0..<q. A ! i ! k * B ! k ! j)"
    using assms by (intro sum.cong) (simp_all add: col_nth)
  finally show ?thesis .
qed

lemma transpose_is_mat:
  assumes "is_mat p q A"
  shows "is_mat q p (transpose_mat A)"
  using assms by (intro is_matI) (simp_all add: transpose_mat_def cols_is_mat is_matD col_def)

lemma transpose_nth:
  assumes "is_mat p q A" "i < p" "j < q"
  shows "transpose_mat A ! j ! i = A ! i ! j"
  using assms by (simp add: transpose_mat_def cols_is_mat col_nth)

lemma transpose_transpose:
  assumes "is_mat p q A"
  shows "transpose_mat (transpose_mat A) = A"
proof (rule mat_eqI [OF _ assms])
  show "is_mat p q (transpose_mat (transpose_mat A))"
    using assms by (intro transpose_is_mat)
next
  fix i j assume "i < p" "j < q"
  then show "transpose_mat (transpose_mat A) ! i ! j = A ! i ! j"
    using assms transpose_is_mat [OF assms] by (simp add: transpose_nth)
qed

lemma transpose_mult:
  assumes "is_mat p q A" "is_mat q r B"
  shows "transpose_mat (mat_mult A B) = mat_mult (transpose_mat B) (transpose_mat A)"
proof (rule mat_eqI)
  show "is_mat r p (transpose_mat (mat_mult A B))"
    using assms by (intro transpose_is_mat mat_mult_is_mat)
  show "is_mat r p (mat_mult (transpose_mat B) (transpose_mat A))"
    using assms by (intro transpose_is_mat mat_mult_is_mat)
next
  fix j i assume ji: "j < r" "i < p"
  have "transpose_mat (mat_mult A B) ! j ! i = (\<Sum>k = 0..<q. A ! i ! k * B ! k ! j)"
    using assms ji mat_mult_is_mat [OF assms] by (simp add: transpose_nth mat_mult_nth)
  also have "\<dots> = (\<Sum>k = 0..<q. transpose_mat B ! j ! k * transpose_mat A ! k ! i)"
    using assms ji by (intro sum.cong) (simp_all add: transpose_nth mult.commute)
  also have "\<dots> = mat_mult (transpose_mat B) (transpose_mat A) ! j ! i"
    using assms ji by (simp add: mat_mult_nth [OF transpose_is_mat transpose_is_mat])
  finally show "transpose_mat (mat_mult A B) ! j ! i =
      mat_mult (transpose_mat B) (transpose_mat A) ! j ! i" .
qed

lemma mat_mult_assoc:
  assumes "is_mat p q A" "is_mat q r B" "is_mat r s E"
  shows "mat_mult (mat_mult A B) E = mat_mult A (mat_mult B E)"
proof (rule mat_eqI)
  show "is_mat p s (mat_mult (mat_mult A B) E)"
    using assms by (intro mat_mult_is_mat)
  show "is_mat p s (mat_mult A (mat_mult B E))"
    using assms by (intro mat_mult_is_mat)
next
  fix i j assume ij: "i < p" "j < s"
  have "mat_mult (mat_mult A B) E ! i ! j =
      (\<Sum>l = 0..<r. (\<Sum>k = 0..<q. A ! i ! k * B ! k ! l) * E ! l ! j)"
    using assms ij
    by (simp add: mat_mult_nth [OF mat_mult_is_mat [OF assms(1,2)] assms(3)] mat_mult_nth [OF assms(1,2)])
  also have "\<dots> = (\<Sum>l = 0..<r. \<Sum>k = 0..<q. A ! i ! k * (B ! k ! l * E ! l ! j))"
    by (simp add: sum_distrib_right mult.assoc)
  also have "\<dots> = (\<Sum>k = 0..<q. \<Sum>l = 0..<r. A ! i ! k * (B ! k ! l * E ! l ! j))"
    by (rule sum.swap)
  also have "\<dots> = (\<Sum>k = 0..<q. A ! i ! k * (\<Sum>l = 0..<r. B ! k ! l * E ! l ! j))"
    by (simp add: sum_distrib_left)
  also have "\<dots> = mat_mult A (mat_mult B E) ! i ! j"
    using assms ij
    by (simp add: mat_mult_nth [OF assms(1) mat_mult_is_mat [OF assms(2,3)]] mat_mult_nth [OF assms(2,3)])
  finally show "mat_mult (mat_mult A B) E ! i ! j = mat_mult A (mat_mult B E) ! i ! j" .
qed

lemma mat_vec_length [simp]: "length (mat_vec A x) = length A"
  by (simp add: mat_vec_def)

lemma mat_vec_nth:
  assumes "is_mat p q A" "length x = q" "i < p"
  shows "mat_vec A x ! i = (\<Sum>k = 0..<q. A ! i ! k * x ! k)"
  using assms by (simp add: mat_vec_def is_matD dot_sum)

lemma mat_vec_mult:
  assumes "is_mat p q A" "is_mat q r B" "length x = r"
  shows "mat_vec (mat_mult A B) x = mat_vec A (mat_vec B x)"
proof (rule nth_equalityI)
  show "length (mat_vec (mat_mult A B) x) = length (mat_vec A (mat_vec B x))"
    by (simp add: mat_mult_def)
next
  fix i assume "i < length (mat_vec (mat_mult A B) x)"
  then have i: "i < p" using assms(1) by (simp add: mat_mult_def is_matD)
  have "mat_vec (mat_mult A B) x ! i = (\<Sum>j = 0..<r. (\<Sum>k = 0..<q. A ! i ! k * B ! k ! j) * x ! j)"
    using assms i
    by (simp add: mat_vec_nth [OF mat_mult_is_mat [OF assms(1,2)]] mat_mult_nth [OF assms(1,2)])
  also have "\<dots> = (\<Sum>j = 0..<r. \<Sum>k = 0..<q. A ! i ! k * (B ! k ! j * x ! j))"
    by (simp add: sum_distrib_right mult.assoc)
  also have "\<dots> = (\<Sum>k = 0..<q. \<Sum>j = 0..<r. A ! i ! k * (B ! k ! j * x ! j))"
    by (rule sum.swap)
  also have "\<dots> = (\<Sum>k = 0..<q. A ! i ! k * (\<Sum>j = 0..<r. B ! k ! j * x ! j))"
    by (simp add: sum_distrib_left)
  also have "\<dots> = (\<Sum>k = 0..<q. A ! i ! k * mat_vec B x ! k)"
    using assms by (intro sum.cong) (simp_all add: mat_vec_nth)
  also have "\<dots> = mat_vec A (mat_vec B x) ! i"
    using assms i by (simp add: mat_vec_nth is_matD)
  finally show "mat_vec (mat_mult A B) x ! i = mat_vec A (mat_vec B x) ! i" .
qed

lemma dot_mat_vec_transpose:
  assumes "is_mat p q A" "length x = q" "length y = p"
  shows "dot (mat_vec A x) y = dot x (mat_vec (transpose_mat A) y)"
proof -
  have "dot (mat_vec A x) y = (\<Sum>i = 0..<p. mat_vec A x ! i * y ! i)"
    using assms by (intro dot_sum) (simp_all add: is_matD)
  also have "\<dots> = (\<Sum>i = 0..<p. \<Sum>k = 0..<q. A ! i ! k * x ! k * y ! i)"
    using assms by (intro sum.cong) (simp_all add: mat_vec_nth sum_distrib_right)
  also have "\<dots> = (\<Sum>k = 0..<q. \<Sum>i = 0..<p. A ! i ! k * x ! k * y ! i)"
    by (rule sum.swap)
  also have "\<dots> = (\<Sum>k = 0..<q. x ! k * (\<Sum>i = 0..<p. transpose_mat A ! k ! i * y ! i))"
    using assms by (intro sum.cong) (simp_all add: sum_distrib_left transpose_nth mult_ac)
  also have "\<dots> = (\<Sum>k = 0..<q. x ! k * mat_vec (transpose_mat A) y ! k)"
    using assms by (intro sum.cong) (simp_all add: mat_vec_nth [OF transpose_is_mat])
  also have "\<dots> = dot x (mat_vec (transpose_mat A) y)"
    using assms transpose_is_mat [OF assms(1)] by (intro dot_sum [symmetric]) (simp_all add: is_matD)
  finally show ?thesis .
qed

lemma mat_vec_zero:
  assumes "is_mat p q A"
  shows "mat_vec A (replicate q 0) = replicate p 0"
proof (rule nth_equalityI)
  show "length (mat_vec A (replicate q 0)) = length (replicate p (0::real))"
    using assms by (simp add: is_matD)
next
  fix i assume "i < length (mat_vec A (replicate q 0))"
  then have "i < p" using assms by (simp add: is_matD)
  then show "mat_vec A (replicate q 0) ! i = replicate p 0 ! i"
    using assms by (simp add: mat_vec_nth)
qed

lemma dot_zero [simp]: "dot (replicate n 0) v = 0"
proof (induction n arbitrary: v)
  case 0
  then show ?case by simp
next
  case (Suc n)
  then show ?case by (cases v) simp_all
qed

section \<open>The identity matrix\<close>

lemma identity_is_mat: "0 < n \<Longrightarrow> is_mat n n (identity_mat n)"
  by (intro is_matI) (simp_all add: identity_mat_def asDiagonal_def)

lemma identity_nth:
  "i < n \<Longrightarrow> j < n \<Longrightarrow> identity_mat n ! i ! j = (if i = j then 1 else 0)"
  by (simp add: identity_mat_def asDiagonal_def)

lemma mat_mult_identity_right:
  assumes "is_mat p q A"
  shows "mat_mult A (identity_mat q) = A"
proof (rule mat_eqI [OF _ assms])
  have q: "0 < q" using assms by (simp add: is_matD)
  show "is_mat p q (mat_mult A (identity_mat q))"
    using assms q by (intro mat_mult_is_mat [OF _ identity_is_mat])
  fix i j assume ij: "i < p" "j < q"
  have "mat_mult A (identity_mat q) ! i ! j = (\<Sum>k = 0..<q. A ! i ! k * identity_mat q ! k ! j)"
    using assms ij q by (simp add: mat_mult_nth [OF _ identity_is_mat])
  also have "\<dots> = (\<Sum>k = 0..<q. if k = j then A ! i ! j else 0)"
    using ij by (intro sum.cong) (simp_all add: identity_nth)
  also have "\<dots> = A ! i ! j"
    using ij by simp
  finally show "mat_mult A (identity_mat q) ! i ! j = A ! i ! j" .
qed

lemma mat_mult_identity_left:
  assumes "is_mat p q A"
  shows "mat_mult (identity_mat p) A = A"
proof (rule mat_eqI [OF _ assms])
  have p: "0 < p" using assms by (simp add: is_matD)
  show "is_mat p q (mat_mult (identity_mat p) A)"
    using assms p by (intro mat_mult_is_mat [OF identity_is_mat])
  fix i j assume ij: "i < p" "j < q"
  have "mat_mult (identity_mat p) A ! i ! j = (\<Sum>k = 0..<p. identity_mat p ! i ! k * A ! k ! j)"
    using assms ij p by (simp add: mat_mult_nth [OF identity_is_mat])
  also have "\<dots> = (\<Sum>k = 0..<p. if k = i then A ! i ! j else 0)"
    using ij by (intro sum.cong) (auto simp add: identity_nth)
  also have "\<dots> = A ! i ! j"
    using ij by simp
  finally show "mat_mult (identity_mat p) A ! i ! j = A ! i ! j" .
qed

lemma transpose_identity:
  assumes "0 < n"
  shows "transpose_mat (identity_mat n) = identity_mat n"
proof (rule mat_eqI [OF transpose_is_mat [OF identity_is_mat [OF assms]] identity_is_mat [OF assms]])
  fix i j assume "i < n" "j < n"
  then show "transpose_mat (identity_mat n) ! i ! j = identity_mat n ! i ! j"
    using assms by (auto simp add: transpose_nth [OF identity_is_mat] identity_nth)
qed

lemma mat_vec_identity:
  assumes "length x = n" "0 < n"
  shows "mat_vec (identity_mat n) x = x"
proof (rule nth_equalityI)
  show "length (mat_vec (identity_mat n) x) = length x"
    using assms by (simp add: identity_mat_def asDiagonal_def)
next
  fix i assume "i < length (mat_vec (identity_mat n) x)"
  then have i: "i < n" by (simp add: identity_mat_def asDiagonal_def)
  have "mat_vec (identity_mat n) x ! i = (\<Sum>k = 0..<n. identity_mat n ! i ! k * x ! k)"
    using assms i by (simp add: mat_vec_nth [OF identity_is_mat])
  also have "\<dots> = (\<Sum>k = 0..<n. if k = i then x ! i else 0)"
    using i by (intro sum.cong) (auto simp add: identity_nth)
  also have "\<dots> = x ! i"
    using i by simp
  finally show "mat_vec (identity_mat n) x ! i = x ! i" .
qed

section \<open>Sums and differences\<close>

lemma vec_add_nth: "i < length u \<Longrightarrow> i < length v \<Longrightarrow> vec_add u v ! i = u ! i + v ! i"
  by (simp add: vec_add_def)

lemma vec_sub_nth: "i < length u \<Longrightarrow> i < length v \<Longrightarrow> vec_sub u v ! i = u ! i - v ! i"
  by (simp add: vec_sub_def)

lemma vec_add_length [simp]: "length (vec_add u v) = min (length u) (length v)"
  by (simp add: vec_add_def)

lemma vec_sub_length [simp]: "length (vec_sub u v) = min (length u) (length v)"
  by (simp add: vec_sub_def)

lemma mat_add_is_mat:
  assumes "is_mat p q A" "is_mat p q B"
  shows "is_mat p q (mat_add A B)"
  using assms by (intro is_matI) (simp_all add: mat_add_def is_matD)

lemma mat_sub_is_mat:
  assumes "is_mat p q A" "is_mat p q B"
  shows "is_mat p q (mat_sub A B)"
  using assms by (intro is_matI) (simp_all add: mat_sub_def is_matD)

lemma mat_add_nth:
  assumes "is_mat p q A" "is_mat p q B" "i < p" "j < q"
  shows "mat_add A B ! i ! j = A ! i ! j + B ! i ! j"
  using assms by (simp add: mat_add_def is_matD vec_add_nth)

lemma mat_sub_nth:
  assumes "is_mat p q A" "is_mat p q B" "i < p" "j < q"
  shows "mat_sub A B ! i ! j = A ! i ! j - B ! i ! j"
  using assms by (simp add: mat_sub_def is_matD vec_sub_nth)

lemma transpose_add:
  assumes "is_mat p q A" "is_mat p q B"
  shows "transpose_mat (mat_add A B) = mat_add (transpose_mat A) (transpose_mat B)"
proof (rule mat_eqI)
  show "is_mat q p (transpose_mat (mat_add A B))"
    using assms by (intro transpose_is_mat mat_add_is_mat)
  show "is_mat q p (mat_add (transpose_mat A) (transpose_mat B))"
    using assms by (intro transpose_is_mat mat_add_is_mat)
next
  fix j i assume "j < q" "i < p"
  then show "transpose_mat (mat_add A B) ! j ! i =
      mat_add (transpose_mat A) (transpose_mat B) ! j ! i"
    using assms
    by (simp add: transpose_nth [OF mat_add_is_mat] mat_add_nth
        mat_add_nth [OF transpose_is_mat transpose_is_mat] transpose_nth)
qed

lemma transpose_sub:
  assumes "is_mat p q A" "is_mat p q B"
  shows "transpose_mat (mat_sub A B) = mat_sub (transpose_mat A) (transpose_mat B)"
proof (rule mat_eqI)
  show "is_mat q p (transpose_mat (mat_sub A B))"
    using assms by (intro transpose_is_mat mat_sub_is_mat)
  show "is_mat q p (mat_sub (transpose_mat A) (transpose_mat B))"
    using assms by (intro transpose_is_mat mat_sub_is_mat)
next
  fix j i assume "j < q" "i < p"
  then show "transpose_mat (mat_sub A B) ! j ! i =
      mat_sub (transpose_mat A) (transpose_mat B) ! j ! i"
    using assms
    by (simp add: transpose_nth [OF mat_sub_is_mat] mat_sub_nth
        mat_sub_nth [OF transpose_is_mat transpose_is_mat] transpose_nth)
qed

lemma quadratic_form_add:
  assumes "is_mat n n A" "is_mat n n B" "length x = n"
  shows "dot x (mat_vec (mat_add A B) x) = dot x (mat_vec A x) + dot x (mat_vec B x)"
proof -
  have "mat_vec (mat_add A B) x = vec_add (mat_vec A x) (mat_vec B x)"
  proof (rule nth_equalityI)
    show "length (mat_vec (mat_add A B) x) = length (vec_add (mat_vec A x) (mat_vec B x))"
      using assms by (simp add: mat_add_def is_matD)
  next
    fix i assume "i < length (mat_vec (mat_add A B) x)"
    then have i: "i < n" using assms by (simp add: mat_add_def is_matD)
    have "mat_vec (mat_add A B) x ! i = (\<Sum>k = 0..<n. (A ! i ! k + B ! i ! k) * x ! k)"
      unfolding mat_vec_nth [OF mat_add_is_mat [OF assms(1,2)] assms(3) i]
      using assms i by (intro sum.cong) (simp_all add: mat_add_nth)
    also have "\<dots> = mat_vec A x ! i + mat_vec B x ! i"
      using assms i by (simp add: mat_vec_nth distrib_right sum.distrib)
    finally show "mat_vec (mat_add A B) x ! i = vec_add (mat_vec A x) (mat_vec B x) ! i"
      using assms i by (simp add: vec_add_nth is_matD)
  qed
  moreover have "dot x (vec_add u v) = dot x u + dot x v" if "length u = length v" for u v
    using that dot_add_right [of u v x] by (simp add: vec_add_def)
  ultimately show ?thesis
    using assms by (simp add: is_matD)
qed

section \<open>Inverses of symmetric and of positive-definite matrices\<close>

lemma is_inverseD:
  assumes "is_inverse M N" "is_mat n n M"
  shows "is_mat n n N" "mat_mult M N = identity_mat n" "mat_mult N M = identity_mat n"
  using assms by (simp_all add: is_inverse_def is_matD)

lemma inverse_symmetric:
  assumes M: "is_mat n n M" and sym: "symmetric M" and inv: "is_inverse M N"
  shows "symmetric N"
proof -
  note N = is_inverseD [OF inv M]
  have n: "0 < n" using M by (simp add: is_matD)
  have Nt: "is_mat n n (transpose_mat N)" using N(1) by (rule transpose_is_mat)
  have "transpose_mat N = mat_mult (transpose_mat N) (mat_mult M N)"
    using Nt by (simp add: N(2) mat_mult_identity_right)
  also have "\<dots> = mat_mult (mat_mult (transpose_mat N) M) N"
    using Nt M N(1) by (simp add: mat_mult_assoc)
  also have "mat_mult (transpose_mat N) M = mat_mult (transpose_mat N) (transpose_mat M)"
    using sym by (simp add: symmetric_def)
  also have "\<dots> = transpose_mat (mat_mult M N)"
    using M N(1) by (simp add: transpose_mult)
  also have "\<dots> = identity_mat n"
    using n by (simp add: N(2) transpose_identity)
  finally show ?thesis
    using N(1) by (simp add: symmetric_def mat_mult_identity_left)
qed

lemma positive_definiteD:
  assumes "positive_definite A" "is_mat n n A" "length x = n"
  shows "0 \<le> dot x (mat_vec A x)"
    and "x \<noteq> replicate n 0 \<Longrightarrow> 0 < dot x (mat_vec A x)"
proof -
  show pos: "x \<noteq> replicate n 0 \<Longrightarrow> 0 < dot x (mat_vec A x)"
    using assms by (simp add: positive_definite_def is_matD)
  show "0 \<le> dot x (mat_vec A x)"
  proof (cases "x = replicate n 0")
    case True
    then show ?thesis by simp
  next
    case False
    then show ?thesis using pos by simp
  qed
qed

lemma inverse_positive_definite:
  assumes M: "is_mat n n M" and pd: "positive_definite M" and inv: "is_inverse M N"
  shows "positive_definite N"
  unfolding positive_definite_def
proof (intro allI impI)
  fix x :: vec
  assume "length x = length N \<and> x \<noteq> replicate (length N) 0"
  note N = is_inverseD [OF inv M]
  have n: "0 < n" using M by (simp add: is_matD)
  from \<open>length x = length N \<and> x \<noteq> replicate (length N) 0\<close>
  have x: "length x = n" "x \<noteq> replicate n 0"
    using N(1) by (simp_all add: is_matD)
  let ?z = "mat_vec N x"
  have z: "length ?z = n" using N(1) by (simp add: is_matD)
  have Mz: "mat_vec M ?z = x"
    using mat_vec_mult [OF M N(1) x(1)] x(1) n by (simp add: N(2) mat_vec_identity)
  have "?z \<noteq> replicate n 0"
  proof
    assume "?z = replicate n 0"
    then have "mat_vec M ?z = replicate n 0"
      using mat_vec_zero [OF M] by simp
    then show False using Mz x(2) by simp
  qed
  then have "0 < dot ?z (mat_vec M ?z)"
    using positive_definiteD(2) [OF pd M z] by simp
  then show "0 < dot x (mat_vec N x)"
    by (simp add: Mz dot_commute)
qed

text \<open>A congruence \<open>A\<^sup>T Q A\<close> with a symmetric positive-definite \<open>Q\<close>.\<close>

lemma congruence_is_mat:
  assumes "is_mat d n A" "is_mat d d Q"
  shows "is_mat n n (mat_mult (mat_mult (transpose_mat A) Q) A)"
  using assms by (intro mat_mult_is_mat transpose_is_mat)

lemma congruence_symmetric:
  assumes A: "is_mat d n A" and Q: "is_mat d d Q" and sym: "symmetric Q"
  shows "symmetric (mat_mult (mat_mult (transpose_mat A) Q) A)"
proof -
  have At: "is_mat n d (transpose_mat A)" using A by (rule transpose_is_mat)
  have "transpose_mat (mat_mult (mat_mult (transpose_mat A) Q) A) =
      mat_mult (transpose_mat A) (transpose_mat (mat_mult (transpose_mat A) Q))"
    using mat_mult_is_mat [OF At Q] A by (rule transpose_mult)
  also have "transpose_mat (mat_mult (transpose_mat A) Q) =
      mat_mult (transpose_mat Q) (transpose_mat (transpose_mat A))"
    using At Q by (rule transpose_mult)
  also have "\<dots> = mat_mult Q A"
    using sym A by (simp add: symmetric_def transpose_transpose)
  also have "mat_mult (transpose_mat A) (mat_mult Q A) =
      mat_mult (mat_mult (transpose_mat A) Q) A"
    using At Q A by (simp add: mat_mult_assoc)
  finally show ?thesis by (simp add: symmetric_def)
qed

lemma congruence_nonnegative:
  assumes A: "is_mat d n A" and Q: "is_mat d d Q" and pd: "positive_definite Q"
    and x: "length x = n"
  shows "0 \<le> dot x (mat_vec (mat_mult (mat_mult (transpose_mat A) Q) A) x)"
proof -
  have At: "is_mat n d (transpose_mat A)" using A by (rule transpose_is_mat)
  let ?u = "mat_vec A x"
  have u: "length ?u = d" using A by (simp add: is_matD)
  have "mat_vec (mat_mult (mat_mult (transpose_mat A) Q) A) x =
      mat_vec (transpose_mat A) (mat_vec Q ?u)"
    using mat_vec_mult [OF mat_mult_is_mat [OF At Q] A x] mat_vec_mult [OF At Q u] by simp
  moreover have "dot x (mat_vec (transpose_mat A) (mat_vec Q ?u)) = dot ?u (mat_vec Q ?u)"
    using dot_mat_vec_transpose [OF A x, of "mat_vec Q ?u"] Q by (simp add: is_matD)
  ultimately show ?thesis
    using positive_definiteD(1) [OF pd Q u] by simp
qed

section \<open>Weighted covariances\<close>

lemma weighted_cov_entries:
  assumes X: "is_mat n K X" and Y: "is_mat d K Y" and w: "length w = K"
  shows "is_mat n d (weighted_cov w X Y)"
    and "\<And>i j. i < n \<Longrightarrow> j < d \<Longrightarrow>
      weighted_cov w X Y ! i ! j = dot (map2 (*) (X ! i) w) (Y ! j)"
proof -
  have K: "w \<noteq> []" using is_matD(2) [OF X] w by auto
  have rows: "weighted_cov w X Y = map (\<lambda>r. map (dot (map2 (*) r w)) Y) X"
    using X Y w K by (intro weighted_cov_rows) (simp_all add: is_matD)
  show "is_mat n d (weighted_cov w X Y)"
    using X Y by (intro is_matI) (simp_all add: rows is_matD)
  show "weighted_cov w X Y ! i ! j = dot (map2 (*) (X ! i) w) (Y ! j)" if "i < n" "j < d" for i j
    using that X Y by (simp add: rows is_matD)
qed

lemma transpose_weighted_cov:
  assumes X: "is_mat n K X" and Y: "is_mat d K Y" and w: "length w = K"
  shows "transpose_mat (weighted_cov w X Y) = weighted_cov w Y X"
proof (rule mat_eqI)
  show "is_mat d n (transpose_mat (weighted_cov w X Y))"
    using assms by (intro transpose_is_mat weighted_cov_entries)
  show "is_mat d n (weighted_cov w Y X)"
    using assms by (intro weighted_cov_entries)
next
  fix j i assume "j < d" "i < n"
  then show "transpose_mat (weighted_cov w X Y) ! j ! i = weighted_cov w Y X ! j ! i"
    using transpose_nth [OF weighted_cov_entries(1) [OF assms]]
      weighted_cov_entries(2) [OF assms] weighted_cov_entries(2) [OF Y X w]
      dot_scale_sym [of "X ! i" w "Y ! j"]
    by simp
qed

lemma weighted_cov_symmetric:
  assumes "is_mat n K X" "length w = K"
  shows "symmetric (weighted_cov w X X)"
  using transpose_weighted_cov [OF assms(1) assms(1) assms(2)] by (simp add: symmetric_def)

lemma centered_points_is_mat:
  assumes "is_mat n K (points_matrix p)"
  shows "is_mat n K (centered_points p)"
  using assms by (intro is_matI) (simp_all add: centered_points_def weighted_mean_def is_matD)

section \<open>The accumulated information matrix\<close>

lemma foldl_mat_add_spd:
  assumes "is_mat n n C" "symmetric C" "positive_definite C"
    and "\<And>T. T \<in> set Ts \<Longrightarrow> is_mat n n T \<and> symmetric T \<and>
      (\<forall>x. length x = n \<longrightarrow> 0 \<le> dot x (mat_vec T x))"
  shows "is_mat n n (foldl mat_add C Ts) \<and> symmetric (foldl mat_add C Ts) \<and>
    positive_definite (foldl mat_add C Ts)"
  using assms
proof (induction Ts arbitrary: C)
  case Nil
  then show ?case by simp
next
  case (Cons T Ts)
  have T: "is_mat n n T" "symmetric T" "\<And>x. length x = n \<Longrightarrow> 0 \<le> dot x (mat_vec T x)"
    using Cons.prems(4) [of T] by simp_all
  have m: "is_mat n n (mat_add C T)"
    using Cons.prems(1) T(1) by (rule mat_add_is_mat)
  have s: "symmetric (mat_add C T)"
    using Cons.prems(1,2) T(1,2) by (simp add: symmetric_def transpose_add)
  have p: "positive_definite (mat_add C T)"
    unfolding positive_definite_def
  proof (intro allI impI)
    fix x :: vec
    assume "length x = length (mat_add C T) \<and> x \<noteq> replicate (length (mat_add C T)) 0"
    then have x: "length x = n" "x \<noteq> replicate n 0"
      using m by (simp_all add: is_matD)
    show "0 < dot x (mat_vec (mat_add C T) x)"
      using quadratic_form_add [OF Cons.prems(1) T(1) x(1)]
        positive_definiteD(2) [OF Cons.prems(3) Cons.prems(1) x(1) x(2)] T(3) [OF x(1)]
      by simp
  qed
  show ?case
    using Cons.IH [OF m s p] Cons.prems(4) by simp
qed

text \<open>
  The posterior covariance, under the shapes of the point sets, a positive-definite
  \<open>c_xx\<close>, positive-definite innovation covariances and inverses that are inverses.
\<close>

lemma information_matrix_spd:
  assumes X: "is_mat n K (points_matrix pX)" and w: "length (covariance_weights pX) = K"
    and Y: "\<And>i. i \<in> set js \<Longrightarrow> is_mat d K (points_matrix (spec_p_Y quad f pX pQ i))"
    and pd: "positive_definite (spec_c_xx pX)"
    and cinv: "is_inverse (spec_c_xx pX) (inv_mat (spec_c_xx pX))"
    and Spd: "\<And>i. i \<in> set js \<Longrightarrow> positive_definite (innovation_cov inv_mat quad f pX pQ i)"
    and Sinv: "\<And>i. i \<in> set js \<Longrightarrow>
      is_inverse (innovation_cov inv_mat quad f pX pQ i)
        (inv_mat (innovation_cov inv_mat quad f pX pQ i))"
  shows "is_mat n n (information_matrix inv_mat quad f pX pQ js) \<and>
    symmetric (information_matrix inv_mat quad f pX pQ js) \<and>
    positive_definite (information_matrix inv_mat quad f pX pQ js)"
proof -
  let ?w = "covariance_weights pX"
  let ?X = "points_matrix pX"
  let ?ci = "inv_mat (spec_c_xx pX)"
  have Xc: "is_mat n K ?X" using X .
  have cxx: "is_mat n n (spec_c_xx pX)" "symmetric (spec_c_xx pX)"
    unfolding spec_c_xx_def
    using weighted_cov_entries(1) [OF Xc Xc w] weighted_cov_symmetric [OF Xc w] by simp_all
  have ci: "is_mat n n ?ci" "symmetric ?ci" "positive_definite ?ci"
    using is_inverseD(1) [OF cinv cxx(1)] inverse_symmetric [OF cxx cinv]
      inverse_positive_definite [OF cxx(1) pd cinv] by simp_all
  have each: "is_mat n n (C_term inv_mat quad f pX pQ i) \<and>
      symmetric (C_term inv_mat quad f pX pQ i) \<and>
      (\<forall>x. length x = n \<longrightarrow> 0 \<le> dot x (mat_vec (C_term inv_mat quad f pX pQ i) x))"
    if i: "i \<in> set js" for i
  proof -
    let ?Y = "centered_points (spec_p_Y quad f pX pQ i)"
    let ?cxy = "spec_c_xy quad f pX pQ i"
    let ?cyy = "spec_c_yy quad f pX pQ i"
    let ?A = "spec_A inv_mat quad f pX pQ i"
    let ?S = "innovation_cov inv_mat quad f pX pQ i"
    have Yc: "is_mat d K ?Y" using Y [OF i] by (rule centered_points_is_mat)
    have cxy: "is_mat n d ?cxy"
      unfolding spec_c_xy_def using Xc Yc w by (rule weighted_cov_entries(1))
    have cyx: "is_mat d n (transpose_mat ?cxy)"
      using cxy by (rule transpose_is_mat)
    have cyy: "is_mat d d ?cyy" "symmetric ?cyy"
      unfolding spec_c_yy_def
      using weighted_cov_entries(1) [OF Yc Yc w] weighted_cov_symmetric [OF Yc w] by simp_all
    have A: "is_mat d n ?A"
      unfolding spec_A_def using cyx ci(1) by (rule mat_mult_is_mat)
    let ?P = "mat_mult (mat_mult (transpose_mat ?cxy) ?ci) ?cxy"
    have P: "is_mat d d ?P"
      using cyx ci(1) cxy by (intro mat_mult_is_mat)
    have "transpose_mat ?P =
        mat_mult (transpose_mat ?cxy) (transpose_mat (mat_mult (transpose_mat ?cxy) ?ci))"
      using mat_mult_is_mat [OF cyx ci(1)] cxy by (rule transpose_mult)
    also have "transpose_mat (mat_mult (transpose_mat ?cxy) ?ci) =
        mat_mult (transpose_mat ?ci) (transpose_mat (transpose_mat ?cxy))"
      using cyx ci(1) by (rule transpose_mult)
    also have "\<dots> = mat_mult ?ci ?cxy"
      using ci(2) cxy by (simp add: symmetric_def transpose_transpose)
    also have "mat_mult (transpose_mat ?cxy) (mat_mult ?ci ?cxy) = ?P"
      using cyx ci(1) cxy by (simp add: mat_mult_assoc)
    finally have Psym: "transpose_mat ?P = ?P" .
    have S: "is_mat d d ?S" "symmetric ?S"
      unfolding innovation_cov_def
      using mat_sub_is_mat [OF cyy(1) P] transpose_sub [OF cyy(1) P] cyy(2) Psym
      by (simp_all add: symmetric_def)
    let ?Q = "inv_mat ?S"
    have Q: "is_mat d d ?Q" "symmetric ?Q" "positive_definite ?Q"
      using is_inverseD(1) [OF Sinv [OF i] S(1)] inverse_symmetric [OF S Sinv [OF i]]
        inverse_positive_definite [OF S(1) Spd [OF i] Sinv [OF i]] by simp_all
    have form: "C_term inv_mat quad f pX pQ i = mat_mult (mat_mult (transpose_mat ?A) ?Q) ?A"
      by (simp add: C_term_def spec_T_def)
    show ?thesis
      unfolding form
      using congruence_is_mat [OF A Q(1)] congruence_symmetric [OF A Q(1) Q(2)]
        congruence_nonnegative [OF A Q(1) Q(3)]
      by simp
  qed
  show ?thesis
    unfolding information_matrix_def
    by (rule foldl_mat_add_spd [OF ci]) (auto simp add: each)
qed

lemma posterior_covariance_spd:
  assumes X: "is_mat n K (points_matrix pX)" and w: "length (covariance_weights pX) = K"
    and Y: "\<And>i. i \<in> set js \<Longrightarrow> is_mat d K (points_matrix (spec_p_Y quad f pX pQ i))"
    and pd: "positive_definite (spec_c_xx pX)"
    and cinv: "is_inverse (spec_c_xx pX) (inv_mat (spec_c_xx pX))"
    and Spd: "\<And>i. i \<in> set js \<Longrightarrow> positive_definite (innovation_cov inv_mat quad f pX pQ i)"
    and Sinv: "\<And>i. i \<in> set js \<Longrightarrow>
      is_inverse (innovation_cov inv_mat quad f pX pQ i)
        (inv_mat (innovation_cov inv_mat quad f pX pQ i))"
    and Cinv: "is_inverse (information_matrix inv_mat quad f pX pQ js)
        (inv_mat (information_matrix inv_mat quad f pX pQ js))"
  shows "symmetric (inv_mat (information_matrix inv_mat quad f pX pQ js))"
    and "positive_definite (inv_mat (information_matrix inv_mat quad f pX pQ js))"
proof -
  have C: "is_mat n n (information_matrix inv_mat quad f pX pQ js)"
    "symmetric (information_matrix inv_mat quad f pX pQ js)"
    "positive_definite (information_matrix inv_mat quad f pX pQ js)"
    using information_matrix_spd [OF X w Y pd cinv Spd Sinv] by simp_all
  show "symmetric (inv_mat (information_matrix inv_mat quad f pX pQ js))"
    using C(1,2) Cinv by (rule inverse_symmetric)
  show "positive_definite (inv_mat (information_matrix inv_mat quad f pX pQ js))"
    using C(1,3) Cinv by (rule inverse_positive_definite)
qed

section \<open>Definiteness of 1 by 1 matrices\<close>

lemma is_mat_1x1 [simp]: "is_mat 1 1 [[a]]" "is_mat (Suc 0) (Suc 0) [[a]]"
  by (simp_all add: is_mat_def)

lemma identity_mat_1 [simp]: "identity_mat (Suc 0) = [[1]]"
  by (simp add: identity_mat_def asDiagonal_def)

lemma symmetric_1x1 [simp]: "symmetric [[a]]"
  by (simp add: symmetric_def)

lemma positive_definite_1x1 [simp]: "positive_definite [[a]] = (0 < a)"
proof
  assume "positive_definite [[a]]"
  then have "0 < dot [1] (mat_vec [[a]] [1])"
    unfolding positive_definite_def by (elim allE [of _ "[1]"]) simp
  then show "0 < a" by simp
next
  assume a: "0 < a"
  show "positive_definite [[a]]"
    unfolding positive_definite_def
  proof (intro allI impI)
    fix x :: vec
    assume "length x = length [[a]] \<and> x \<noteq> replicate (length [[a]]) 0"
    then obtain b where x: "x = [b]" and b: "b \<noteq> 0"
      by (cases x) auto
    have "0 < b * b" using b by (auto simp add: zero_less_mult_iff)
    then have "0 < b * b * a" using a by simp
    then show "0 < dot x (mat_vec [[a]] x)"
      by (simp add: x mult_ac)
  qed
qed

lemma is_inverse_1x1 [simp]: "is_inverse [[a]] [[b]] = (a * b = 1)"
  by (auto simp add: is_inverse_def mult.commute)

section \<open>The quadratic sensor\<close>

lemma propagate_scalar_row:
  assumes "points_matrix pX = [xs]" "points_matrix pQ = [qs]" "length xs = length qs" "xs \<noteq> []"
    and h: "\<And>x q. h [x] [q] = [k x q]"
  shows "propagate_columnwise h pX pQ =
     \<lparr>points_matrix = [map2 k xs qs], mean_weights = mean_weights pX,
      covariance_weights = covariance_weights pX\<rparr>"
proof -
  have q: "qs \<noteq> []" using assms by auto
  have m: "map2 h (map (\<lambda>x. [x]) xs) (map (\<lambda>x. [x]) qs) = map (\<lambda>z. [z]) (map2 k xs qs)"
    using assms(3) by (induction xs qs rule: list_induct2) (simp_all add: h)
  have ne: "map2 k xs qs \<noteq> []"
    using assms q by (cases xs; cases qs) simp_all
  have "transpose_mat (map2 h (columns pX) (columns pQ)) = [map2 k xs qs]"
    unfolding columns_def assms(1,2) transpose_row [OF assms(4)] transpose_row [OF q] m
    by (rule transpose_singletons [OF ne])
  then show ?thesis
    by (simp add: propagate_columnwise_def)
qed

section \<open>The factorized model\<close>

lemma scast_value: "uint (scast (n :: 32 word) :: 64 word) = sint n mod 2 ^ 64"
  unfolding scast_eq uint_word_of_int by simp

section \<open>The claims\<close>



text \<open>
  C2, on the code. A scalar state with prior variance 1, three sensors with the identity
  observation \<open>y = x + w\<close> and noise variance 1, and all three measurements equal to 1.
  With prior mean 1 the update returns the variance 1/4 of the claim and the mean 7/4,
  where the claim has \<open>1/4 \<cdot> (1/1 + 3 \<cdot> 1/1) = 1\<close>: the sensors are evaluated on the
  state points that \<open>p_X.center()\<close> has centred, so every observation mean is 0 in place of
  the prior mean. With prior mean 0, the example of the claim, the update returns the
  variance 1/4 and the mean 3/4 of the claim.
\<close>

theorem C2_scalar_identity_sensors_on_centred_points:
  "(\<forall>s. \<exists>st'. multi_sensor_update (inverse_1x1 s) (unscented_scalar 2)
        \<lparr>mean = [1], covariance = [[1]]\<rparr> [1, 1, 1]
        (initial_state (identity_sensors 3) \<lparr>mean = [0], covariance = [[1]]\<rparr>
           \<lparr>mean = [0], covariance = [[1]]\<rparr>) = Inr st' \<and>
      posterior_belief st' = \<lparr>mean = [7 / 4], covariance = [[1 / 4]]\<rparr>) \<and>
   1 / (1 / 1 + 3 / 1) * (1 / 1 + 3 * 1 / 1) = (1 :: real) \<and>
   (\<forall>s. \<exists>st'. multi_sensor_update (inverse_1x1 s) (unscented_scalar 2)
        \<lparr>mean = [0], covariance = [[1]]\<rparr> [1, 1, 1]
        (initial_state (identity_sensors 3) \<lparr>mean = [0], covariance = [[1]]\<rparr>
           \<lparr>mean = [0], covariance = [[1]]\<rparr>) = Inr st' \<and>
      posterior_belief st' = \<lparr>mean = [3 / 4], covariance = [[1 / 4]]\<rparr>)"
proof -
  have r: "\<exists>st'. multi_sensor_update (inverse_1x1 s) (unscented_scalar 2)
        \<lparr>mean = [x0], covariance = [[1]]\<rparr> [1, 1, 1]
        (initial_state (identity_sensors 3) \<lparr>mean = [0], covariance = [[1]]\<rparr>
           \<lparr>mean = [0], covariance = [[1]]\<rparr>) = Inr st' \<and>
      posterior_belief st' = \<lparr>mean = [x0 + 3 / 4], covariance = [[1 / 4]]\<rparr>" for s x0 :: real
    using identity_update_result [of 2 1 1 s x0 "[1, 1, 1]" "\<lparr>mean = [0], covariance = [[1]]\<rparr>"]
    by simp
  show ?thesis
    using r [of _ 1] r [of _ 0] by simp
qed

text \<open>
  C3, as the code has it. The update never tests \<open>c_xx\<close> or an innovation covariance for
  invertibility. It fails with SingularCovariance exactly when \<open>transform_to_points\<close> of
  the quadrature does, for the joint covariance of prior and noise, and then it leaves
  its state as it was. Any call fails exactly when the transform fails or the measurement
  slice of some sensor is out of range; on every other input it returns a posterior
  belief, computed from whatever the inverse returns.
\<close>

theorem C3_singular_covariance_only_from_the_transform:
  "(multi_sensor_update inv_mat quad prior y st = Inl (SingularCovariance, s)) =
     (transform_to_points quad prior (noise_distr st) = Inl SingularCovariance \<and> s = st) \<and>
   isl (multi_sensor_update inv_mat quad prior y st) =
     (\<not> (\<not> isl (transform_to_points quad prior (noise_distr st)) \<and>
         list_all
           (slice_ok quad (local_fn st) (state_points quad prior st) (noise_points quad prior st) y)
           [0..<nat (count_local_models (obsrv_function st))]))"
proof -
  let ?js = "[0..<nat (count_local_models (obsrv_function st))]"
  have "(update_in_order ?js inv_mat quad prior y st = Inl (SingularCovariance, s)) =
     (transform_to_points quad prior (noise_distr st) = Inl SingularCovariance \<and> s = st)"
    by (cases rule: update_in_order_cases [of quad prior st ?js inv_mat y]) auto
  then show ?thesis
    unfolding multi_sensor_update_def update_in_order_isl by simp
qed

theorem C3_witness:
  "\<forall>s. multi_sensor_update (inverse_1x1 s) (unscented_scalar 2) \<lparr>mean = [0], covariance = [[0]]\<rparr> [1]
      (initial_state (identity_sensors 1) \<lparr>mean = [0], covariance = [[1]]\<rparr>
         \<lparr>mean = [0], covariance = [[0]]\<rparr>) =
    Inl (SingularCovariance,
      initial_state (identity_sensors 1) \<lparr>mean = [0], covariance = [[1]]\<rparr>
         \<lparr>mean = [0], covariance = [[0]]\<rparr>)"
proof
  fix s :: real
  let ?st = "initial_state (identity_sensors 1) \<lparr>mean = [0], covariance = [[1]]\<rparr>
         \<lparr>mean = [0], covariance = [[0]]\<rparr>"
  have "transform_to_points (unscented_scalar 2) \<lparr>mean = [0], covariance = [[0]]\<rparr> (noise_distr ?st) =
      Inl SingularCovariance"
    by (simp add: initial_state_def unscented_scalar_singular)
  then show "multi_sensor_update (inverse_1x1 s) (unscented_scalar 2) \<lparr>mean = [0], covariance = [[0]]\<rparr> [1] ?st =
      Inl (SingularCovariance, ?st)"
    using C3_singular_covariance_only_from_the_transform [of "inverse_1x1 s" "unscented_scalar 2"
        "\<lparr>mean = [0], covariance = [[0]]\<rparr>" "[1]" ?st ?st]
    by simp
qed

text \<open>
  C3 fails for the sensor without noise, \<open>y = x\<close>, with prior variance 1 and noise
  variance 1: the joint covariance is positive-definite and the transform succeeds,
  \<open>c_xx\<close> is 1, the innovation covariance is the zero matrix, and the call returns a
  belief, whatever the inverse returns on the zero matrix.
\<close>

theorem C3_counterexample:
  "\<forall>s. \<not> isl (transform_to_points (unscented_scalar 2) \<lparr>mean = [1], covariance = [[1]]\<rparr>
          (noise_distr (initial_state noise_free_sensor \<lparr>mean = [0], covariance = [[1]]\<rparr>
             \<lparr>mean = [0], covariance = [[1]]\<rparr>))) \<and>
     innovation_cov (inverse_1x1 s) (unscented_scalar 2)
        (local_fn (initial_state noise_free_sensor \<lparr>mean = [0], covariance = [[1]]\<rparr>
           \<lparr>mean = [0], covariance = [[1]]\<rparr>))
        (state_points (unscented_scalar 2) \<lparr>mean = [1], covariance = [[1]]\<rparr>
           (initial_state noise_free_sensor \<lparr>mean = [0], covariance = [[1]]\<rparr>
              \<lparr>mean = [0], covariance = [[1]]\<rparr>))
        (noise_points (unscented_scalar 2) \<lparr>mean = [1], covariance = [[1]]\<rparr>
           (initial_state noise_free_sensor \<lparr>mean = [0], covariance = [[1]]\<rparr>
              \<lparr>mean = [0], covariance = [[1]]\<rparr>)) 0 = [[0]] \<and>
     \<not> isl (multi_sensor_update (inverse_1x1 s) (unscented_scalar 2)
        \<lparr>mean = [1], covariance = [[1]]\<rparr> [1]
        (initial_state noise_free_sensor \<lparr>mean = [0], covariance = [[1]]\<rparr>
           \<lparr>mean = [0], covariance = [[1]]\<rparr>))"
proof
  fix s :: real
  let ?n = "\<lparr>mean = [0::real], covariance = [[1::real]]\<rparr>"
  let ?b = "\<lparr>mean = [1::real], covariance = [[1::real]]\<rparr>"
  let ?st = "initial_state noise_free_sensor ?n \<lparr>mean = [0], covariance = [[1]]\<rparr>"
  let ?q = "unscented_scalar 2"
  let ?pX = "state_points ?q ?b ?st" and ?pQ = "noise_points ?q ?b ?st"
  let ?f = "\<lambda>(i::int) (x::vec) (w::vec). x"
  let ?w = "unscented_weights 2"
  let ?xs = "[0, 2, - 2, 0, 0 :: real]"
  have f: "local_fn ?st = ?f"
    by (simp add: local_fn_def noise_free_sensor_def initial_state_def)
  have N: "nat (count_local_models (obsrv_function ?st)) = 1"
    by (simp add: noise_free_sensor_def)
  have n: "noise_distr ?st = ?n" by simp
  have tr: "\<not> isl (transform_to_points ?q ?b (noise_distr ?st))"
    using unscented_transform_succeeds [of 1 1 ?st 0 2 1] by auto
  have sp: "?pX = \<lparr>points_matrix = [?xs], mean_weights = ?w, covariance_weights = ?w\<rparr>"
    and np: "?pQ = \<lparr>points_matrix = [[0, 0, 0, 2, - 2]], mean_weights = ?w,
      covariance_weights = ?w\<rparr>"
    using unscented_points(1,2) [of 2 1 1 ?st 0 1] by simp_all
  have pY: "spec_p_Y ?q ?f ?pX ?pQ 0 =
      \<lparr>points_matrix = [?xs], mean_weights = ?w, covariance_weights = ?w\<rparr>"
    unfolding spec_p_Y_def unscented_scalar_fields
    by (subst propagate_scalar_row [where xs = ?xs and qs = "[0, 0, 0, 2, - 2]"
          and k = "\<lambda>x q. x"])
      (simp_all add: sp np)
  have my: "spec_mean_y ?q ?f ?pX ?pQ 0 = [0]"
    unfolding spec_mean_y_def pY by (simp add: weighted_mean_row unscented_weights_def)
  have Yc: "centered_points (spec_p_Y ?q ?f ?pX ?pQ 0) = [?xs]"
    using my unfolding spec_mean_y_def centered_points_def by (simp add: pY)
  have cw: "covariance_weights ?pX = ?w" and X: "points_matrix ?pX = [?xs]"
    by (simp_all add: sp)
  have c: "weighted_cov ?w [?xs] [?xs] = [[1]]"
    by (simp add: weighted_cov_1x1 unscented_weights_def)
  have cxx: "spec_c_xx ?pX = [[1]]"
    unfolding spec_c_xx_def X cw by (rule c)
  have cxy: "spec_c_xy ?q ?f ?pX ?pQ 0 = [[1]]"
    unfolding spec_c_xy_def X Yc cw by (rule c)
  have cyy: "spec_c_yy ?q ?f ?pX ?pQ 0 = [[1]]"
    unfolding spec_c_yy_def Yc cw by (rule c)
  have S: "innovation_cov (inverse_1x1 s) ?q (local_fn ?st) ?pX ?pQ 0 = [[0]]"
    unfolding f by (simp add: innovation_cov_def cxy cyy cxx inverse_1x1_def)
  have ok: "list_all (slice_ok ?q (local_fn ?st) ?pX ?pQ [1])
      [0..<nat (count_local_models (obsrv_function ?st))]"
    unfolding N f by (simp add: slice_ok_def my)
  have r: "\<not> isl (multi_sensor_update (inverse_1x1 s) ?q ?b [1] ?st)"
    using ok tr unfolding multi_sensor_update_def update_in_order_isl by simp
  show "\<not> isl (transform_to_points ?q ?b (noise_distr ?st)) \<and>
     innovation_cov (inverse_1x1 s) ?q (local_fn ?st) ?pX ?pQ 0 = [[0]] \<and>
     \<not> isl (multi_sensor_update (inverse_1x1 s) ?q ?b [1] ?st)"
    using tr S r by simp
qed

text \<open>
  C4. The belief a call leaves behind is the belief it was given whenever the call
  fails, and otherwise the belief whose covariance and mean are both the new ones: no
  call ends with one of the two fields written.
\<close>

theorem C4_belief_written_whole_or_not_at_all:
  "posterior_belief (final_state (multi_sensor_update inv_mat quad prior y st)) =
     (if isl (multi_sensor_update inv_mat quad prior y st) then posterior_belief st
      else \<lparr>mean = vec_add (state_mean quad prior st)
                 (mat_vec
                    (inv_mat (information_matrix inv_mat quad (local_fn st)
                       (state_points quad prior st) (noise_points quad prior st)
                       [0..<nat (count_local_models (obsrv_function st))]))
                    (information_vector inv_mat quad (local_fn st)
                       (state_points quad prior st) (noise_points quad prior st) y
                       [0..<nat (count_local_models (obsrv_function st))])),
            covariance =
                 inv_mat (information_matrix inv_mat quad (local_fn st)
                   (state_points quad prior st) (noise_points quad prior st)
                   [0..<nat (count_local_models (obsrv_function st))])\<rparr>)"
  unfolding multi_sensor_update_def by (rule update_in_order_posterior)

theorem C4_witness:
  "\<forall>s. isl (multi_sensor_update (inverse_1x1 s) (unscented_scalar 2)
        \<lparr>mean = [0], covariance = [[1]]\<rparr> [1]
        (initial_state (identity_sensors 2) \<lparr>mean = [0], covariance = [[1]]\<rparr>
           \<lparr>mean = [6], covariance = [[9]]\<rparr>)) \<and>
     posterior_belief (final_state
       (multi_sensor_update (inverse_1x1 s) (unscented_scalar 2)
          \<lparr>mean = [0], covariance = [[1]]\<rparr> [1]
          (initial_state (identity_sensors 2) \<lparr>mean = [0], covariance = [[1]]\<rparr>
             \<lparr>mean = [6], covariance = [[9]]\<rparr>))) = \<lparr>mean = [6], covariance = [[9]]\<rparr>"
proof
  fix s :: real
  let ?st = "initial_state (identity_sensors 2) \<lparr>mean = [0], covariance = [[1]]\<rparr>
      \<lparr>mean = [6], covariance = [[9]]\<rparr>"
  have f: "isl (multi_sensor_update (inverse_1x1 s) (unscented_scalar 2)
      \<lparr>mean = [0], covariance = [[1]]\<rparr> [1] ?st)"
    by (rule identity_update_fails) simp_all
  show "isl (multi_sensor_update (inverse_1x1 s) (unscented_scalar 2)
        \<lparr>mean = [0], covariance = [[1]]\<rparr> [1] ?st) \<and>
     posterior_belief (final_state
       (multi_sensor_update (inverse_1x1 s) (unscented_scalar 2)
          \<lparr>mean = [0], covariance = [[1]]\<rparr> [1] ?st)) = \<lparr>mean = [6], covariance = [[9]]\<rparr>"
    using C4_belief_written_whole_or_not_at_all [of "inverse_1x1 s" "unscented_scalar 2"
        "\<lparr>mean = [0], covariance = [[1]]\<rparr>" "[1]" ?st] f
    by simp
qed

text \<open>
  C5. Running the loop over the sensor indices in any permuted order, each sensor with
  its own slice of the measurement, ends with the same posterior mean and covariance as
  the order \<open>0, \<dots>, N - 1\<close> of the code, and fails on the same inputs.
\<close>

theorem C5_permutation_invariance:
  assumes "mset js = mset [0..<nat (count_local_models (obsrv_function st))]"
  shows "posterior_belief (final_state (update_in_order js inv_mat quad prior y st)) =
      posterior_belief (final_state (multi_sensor_update inv_mat quad prior y st)) \<and>
    isl (update_in_order js inv_mat quad prior y st) =
      isl (multi_sensor_update inv_mat quad prior y st)"
  unfolding multi_sensor_update_def
  using update_in_order_permuted [OF assms] by simp

theorem C5_witness:
  "\<forall>s. mset [2, 0, 1] = mset [0..<nat (count_local_models (identity_sensors 3))] \<and>
     \<not> isl (multi_sensor_update (inverse_1x1 s) (unscented_scalar 2)
        \<lparr>mean = [1], covariance = [[1]]\<rparr> [1, 2, 4]
        (initial_state (identity_sensors 3) \<lparr>mean = [0], covariance = [[1]]\<rparr>
           \<lparr>mean = [0], covariance = [[1]]\<rparr>)) \<and>
     posterior_belief (final_state
       (update_in_order [2, 0, 1] (inverse_1x1 s) (unscented_scalar 2)
          \<lparr>mean = [1], covariance = [[1]]\<rparr> [1, 2, 4]
          (initial_state (identity_sensors 3) \<lparr>mean = [0], covariance = [[1]]\<rparr>
             \<lparr>mean = [0], covariance = [[1]]\<rparr>))) =
     posterior_belief (final_state
       (multi_sensor_update (inverse_1x1 s) (unscented_scalar 2)
          \<lparr>mean = [1], covariance = [[1]]\<rparr> [1, 2, 4]
          (initial_state (identity_sensors 3) \<lparr>mean = [0], covariance = [[1]]\<rparr>
             \<lparr>mean = [0], covariance = [[1]]\<rparr>)))"
proof
  fix s :: real
  let ?st = "initial_state (identity_sensors 3) \<lparr>mean = [0], covariance = [[1]]\<rparr>
      \<lparr>mean = [0], covariance = [[1]]\<rparr>"
  let ?b = "\<lparr>mean = [1::real], covariance = [[1::real]]\<rparr>"
  have u: "[0..<3] = [0, 1, 2]"
    by (simp add: numeral_3_eq_3)
  have p: "mset [2, 0, 1] = mset [0..<nat (count_local_models (obsrv_function ?st))]"
    by (simp add: u)
  have r: "\<not> isl (multi_sensor_update (inverse_1x1 s) (unscented_scalar 2) ?b [1, 2, 4] ?st)"
    by (rule identity_update_succeeds) simp_all
  show "mset [2, 0, 1] = mset [0..<nat (count_local_models (identity_sensors 3))] \<and>
     \<not> isl (multi_sensor_update (inverse_1x1 s) (unscented_scalar 2) ?b [1, 2, 4] ?st) \<and>
     posterior_belief (final_state
       (update_in_order [2, 0, 1] (inverse_1x1 s) (unscented_scalar 2) ?b [1, 2, 4] ?st)) =
     posterior_belief (final_state
       (multi_sensor_update (inverse_1x1 s) (unscented_scalar 2) ?b [1, 2, 4] ?st))"
    using C5_permutation_invariance [OF p, of "inverse_1x1 s" "unscented_scalar 2" ?b "[1, 2, 4]"] p r
    by simp
qed

text \<open>
  C6, as the code has it. When the sigma points reproduce a positive-definite prior
  covariance (\<open>c_xx\<close> is the prior covariance), every per-sensor innovation covariance is
  positive-definite, and the three inverses the update takes are inverses, the
  posterior covariance a successful call writes is symmetric and positive-definite; and
  the auto-covariance \<open>cov(X, X)\<close> is symmetric, with one weight vector on both operands.
  The matrices are the ones the update inverts: \<open>c_xx\<close> of the centred state points in
  \<open>p_X\<close>, and the innovation covariances of the observation points propagated from
  them. Here the state points are \<open>n\<close> rows of \<open>K\<close> points with \<open>K\<close> weights and the
  observation points of every sensor \<open>d\<close> rows of \<open>K\<close> points.
\<close>

theorem C6_posterior_covariance_symmetric_positive_definite:
  assumes run: "multi_sensor_update inv_mat quad prior y st = Inr st'"
    and X: "is_mat n K (points_matrix (state_points quad prior st))"
    and w: "length (covariance_weights (state_points quad prior st)) = K"
    and Y: "\<forall>i < nat (count_local_models (obsrv_function st)).
        is_mat d K (points_matrix (spec_p_Y quad (local_fn st) (state_points quad prior st)
          (noise_points quad prior st) i))"
    and cxx: "spec_c_xx (state_points quad prior st) = covariance prior"
    and pd: "positive_definite (covariance prior)"
    and Spd: "\<forall>i < nat (count_local_models (obsrv_function st)).
        positive_definite (innovation_cov inv_mat quad (local_fn st) (state_points quad prior st)
          (noise_points quad prior st) i)"
    and cinv: "is_inverse (spec_c_xx (state_points quad prior st))
        (inv_mat (spec_c_xx (state_points quad prior st)))"
    and Sinv: "\<forall>i < nat (count_local_models (obsrv_function st)).
        is_inverse
          (innovation_cov inv_mat quad (local_fn st) (state_points quad prior st)
             (noise_points quad prior st) i)
          (inv_mat (innovation_cov inv_mat quad (local_fn st) (state_points quad prior st)
             (noise_points quad prior st) i))"
    and Cinv: "is_inverse
        (information_matrix inv_mat quad (local_fn st) (state_points quad prior st)
           (noise_points quad prior st) [0..<nat (count_local_models (obsrv_function st))])
        (inv_mat (information_matrix inv_mat quad (local_fn st) (state_points quad prior st)
           (noise_points quad prior st) [0..<nat (count_local_models (obsrv_function st))]))"
  shows "symmetric (covariance (posterior_belief st')) \<and>
    positive_definite (covariance (posterior_belief st')) \<and>
    symmetric (cov st' (points (p_X st')) (points (p_X st')))"
proof -
  let ?N = "nat (count_local_models (obsrv_function st))"
  let ?pX = "state_points quad prior st" and ?pQ = "noise_points quad prior st"
  have r: "update_in_order [0..<?N] inv_mat quad prior y st = Inr st'"
    using run by (simp add: multi_sensor_update_def)
  have c: "covariance (posterior_belief st') =
      inv_mat (information_matrix inv_mat quad (local_fn st) ?pX ?pQ [0..<?N])"
    using update_in_order_posterior [of "[0..<?N]" inv_mat quad prior y st]
    by (simp add: r final_state_def)
  have p: "p_X st' = ?pX"
    using update_in_order_points(2) [of "[0..<?N]" inv_mat quad prior y st]
    by (simp add: r final_state_def)
  have pd': "positive_definite (spec_c_xx ?pX)"
    using pd cxx by simp
  have spd: "symmetric (inv_mat (information_matrix inv_mat quad (local_fn st) ?pX ?pQ [0..<?N]))"
    "positive_definite (inv_mat (information_matrix inv_mat quad (local_fn st) ?pX ?pQ [0..<?N]))"
  proof -
    have Y': "is_mat d K (points_matrix (spec_p_Y quad (local_fn st) ?pX ?pQ i))"
      and Spd': "positive_definite (innovation_cov inv_mat quad (local_fn st) ?pX ?pQ i)"
      and Sinv': "is_inverse (innovation_cov inv_mat quad (local_fn st) ?pX ?pQ i)
        (inv_mat (innovation_cov inv_mat quad (local_fn st) ?pX ?pQ i))"
      if "i \<in> set [0..<?N]" for i
      using that Y Spd Sinv by simp_all
    show "symmetric (inv_mat (information_matrix inv_mat quad (local_fn st) ?pX ?pQ [0..<?N]))"
      using X w Y' pd' cinv Spd' Sinv' Cinv by (rule posterior_covariance_spd(1))
    show "positive_definite (inv_mat (information_matrix inv_mat quad (local_fn st) ?pX ?pQ [0..<?N]))"
      using X w Y' pd' cinv Spd' Sinv' Cinv by (rule posterior_covariance_spd(2))
  qed
  have "symmetric (weighted_cov (covariance_weights ?pX) (points_matrix ?pX) (points_matrix ?pX))"
    using X w by (rule weighted_cov_symmetric)
  then show ?thesis
    using spd by (simp add: c p cov_weighted points_def)
qed


theorem C6_witness:
  "\<forall>s. \<exists>st'. multi_sensor_update (inverse_1x1 s) (unscented_scalar 2)
        \<lparr>mean = [1], covariance = [[1]]\<rparr> [1, 3]
        (initial_state (identity_sensors 2) \<lparr>mean = [0], covariance = [[1]]\<rparr>
           \<lparr>mean = [8], covariance = [[5]]\<rparr>) = Inr st' \<and>
      symmetric (covariance (posterior_belief st')) \<and>
      positive_definite (covariance (posterior_belief st'))"
proof
  fix s :: real
  let ?n = "\<lparr>mean = [0::real], covariance = [[1::real]]\<rparr>"
  let ?b = "\<lparr>mean = [1::real], covariance = [[1::real]]\<rparr>"
  let ?st = "initial_state (identity_sensors 2) ?n \<lparr>mean = [8], covariance = [[5]]\<rparr>"
  let ?q = "unscented_scalar 2"
  let ?inv = "inverse_1x1 s"
  let ?pX = "state_points ?q ?b ?st" and ?pQ = "noise_points ?q ?b ?st"
  let ?f = "\<lambda>(i::int) x w. vec_add x w"
  let ?w = "unscented_weights 2"
  have "\<not> isl (multi_sensor_update ?inv ?q ?b [1, 3] ?st)"
    by (rule identity_update_succeeds) simp_all
  then obtain st' where r: "multi_sensor_update ?inv ?q ?b [1, 3] ?st = Inr st'"
    by (cases "multi_sensor_update ?inv ?q ?b [1, 3] ?st") auto
  have f: "local_fn ?st = ?f" by (rule identity_local_fn)
  have N: "nat (count_local_models (obsrv_function ?st)) = 2" by simp
  have sp: "?pX = \<lparr>points_matrix = [[0, 2, - 2, 0, 0]], mean_weights = ?w,
      covariance_weights = ?w\<rparr>"
    and np: "?pQ = \<lparr>points_matrix = [[0, 0, 0, 2, - 2]], mean_weights = ?w,
      covariance_weights = ?w\<rparr>"
    using unscented_points(1,2) [of 2 1 1 ?st 0 1] by simp_all
  note t = unscented_identity_terms [where g = 2 and ?x0.0 = 1 and ?P0.0 = 1 and R = 1 and st = ?st
      and inv_mat = ?inv, OF _ _ _ _ inverse_1x1_reciprocal]
  have cxx: "spec_c_xx ?pX = [[1]]"
    and A: "spec_A ?inv ?q ?f ?pX ?pQ i = [[1]]"
    and S: "innovation_cov ?inv ?q ?f ?pX ?pQ i = [[1]]"
    and T: "spec_T ?inv ?q ?f ?pX ?pQ i = [[1 / 1]]" for i
    by (rule t; simp)+
  have X: "is_mat 1 5 (points_matrix ?pX)"
    unfolding sp by (simp add: is_mat_def)
  have w: "length (covariance_weights ?pX) = 5"
    unfolding sp by simp
  have Y: "\<forall>i < nat (count_local_models (obsrv_function ?st)).
      is_mat 1 5 (points_matrix (spec_p_Y ?q (local_fn ?st) ?pX ?pQ i))"
    unfolding f sp np spec_p_Y_def unscented_scalar_fields
    by (simp add: propagate_sum_row [where xs = "[0, 2, - 2, 0, 0]" and qs = "[0, 0, 0, 2, - 2]"]
        is_mat_def)
  have C: "information_matrix ?inv ?q (local_fn ?st) ?pX ?pQ
      [0..<nat (count_local_models (obsrv_function ?st))] = [[3]]"
    unfolding N f
    by (simp add: information_matrix_def cxx C_term_1x1 [OF T A] inverse_1x1_def numeral_2_eq_2)
  have h5: "spec_c_xx ?pX = covariance ?b"
    by (simp add: cxx)
  have h6: "positive_definite (covariance ?b)"
    by simp
  have h7: "\<forall>i < nat (count_local_models (obsrv_function ?st)).
      positive_definite (innovation_cov ?inv ?q (local_fn ?st) ?pX ?pQ i)"
    unfolding f S by simp
  have h8: "is_inverse (spec_c_xx ?pX) (?inv (spec_c_xx ?pX))"
    unfolding cxx by (simp add: inverse_1x1_def)
  have h9: "\<forall>i < nat (count_local_models (obsrv_function ?st)).
      is_inverse (innovation_cov ?inv ?q (local_fn ?st) ?pX ?pQ i)
        (?inv (innovation_cov ?inv ?q (local_fn ?st) ?pX ?pQ i))"
    unfolding f S by (simp add: inverse_1x1_def)
  have h10: "is_inverse
      (information_matrix ?inv ?q (local_fn ?st) ?pX ?pQ
         [0..<nat (count_local_models (obsrv_function ?st))])
      (?inv (information_matrix ?inv ?q (local_fn ?st) ?pX ?pQ
         [0..<nat (count_local_models (obsrv_function ?st))]))"
    unfolding C by (simp add: inverse_1x1_def)
  show "\<exists>st'. multi_sensor_update ?inv ?q ?b [1, 3] ?st = Inr st' \<and>
      symmetric (covariance (posterior_belief st')) \<and>
      positive_definite (covariance (posterior_belief st'))"
    using C6_posterior_covariance_symmetric_positive_definite [OF r X w Y h5 h6 h7 h8 h9 h10] r
    by blast
qed

text \<open>
  C6 fails with a negative covariance weight. The unscented rule with spread 1/2 has the
  centre weight -7; with the sensor \<open>y = x\<^sup>2 + x + w\<close>, prior mean 0, prior variance 1 and
  noise variance 1/4, \<open>c_xx\<close> is the prior variance, the innovation covariance is -1/2,
  which is not singular, every inverse taken is an inverse, and the posterior variance
  is -1.
\<close>

theorem C6_counterexample:
  "\<forall>s. positive_definite (covariance \<lparr>mean = [0], covariance = [[1]]\<rparr>) \<and>
   spec_c_xx (state_points (unscented_scalar (1 / 2)) \<lparr>mean = [0], covariance = [[1]]\<rparr>
      (initial_state quadratic_sensor \<lparr>mean = [0], covariance = [[1 / 4]]\<rparr>
         \<lparr>mean = [0], covariance = [[1]]\<rparr>)) = [[1]] \<and>
   innovation_cov (inverse_1x1 s) (unscented_scalar (1 / 2))
      (local_fn (initial_state quadratic_sensor \<lparr>mean = [0], covariance = [[1 / 4]]\<rparr>
         \<lparr>mean = [0], covariance = [[1]]\<rparr>))
      (state_points (unscented_scalar (1 / 2)) \<lparr>mean = [0], covariance = [[1]]\<rparr>
         (initial_state quadratic_sensor \<lparr>mean = [0], covariance = [[1 / 4]]\<rparr>
            \<lparr>mean = [0], covariance = [[1]]\<rparr>))
      (noise_points (unscented_scalar (1 / 2)) \<lparr>mean = [0], covariance = [[1]]\<rparr>
         (initial_state quadratic_sensor \<lparr>mean = [0], covariance = [[1 / 4]]\<rparr>
            \<lparr>mean = [0], covariance = [[1]]\<rparr>)) 0 = [[- (1 / 2)]] \<and>
   is_inverse [[- (1 / 2)]] (inverse_1x1 s [[- (1 / 2)]]) \<and>
   \<not> isl (multi_sensor_update (inverse_1x1 s) (unscented_scalar (1 / 2))
      \<lparr>mean = [0], covariance = [[1]]\<rparr> [0]
      (initial_state quadratic_sensor \<lparr>mean = [0], covariance = [[1 / 4]]\<rparr>
         \<lparr>mean = [0], covariance = [[1]]\<rparr>)) \<and>
   covariance (posterior_belief (final_state
     (multi_sensor_update (inverse_1x1 s) (unscented_scalar (1 / 2))
        \<lparr>mean = [0], covariance = [[1]]\<rparr> [0]
        (initial_state quadratic_sensor \<lparr>mean = [0], covariance = [[1 / 4]]\<rparr>
           \<lparr>mean = [0], covariance = [[1]]\<rparr>)))) = [[- 1]] \<and>
   \<not> positive_definite [[- 1]]"
proof
  fix s :: real
  let ?n = "\<lparr>mean = [0::real], covariance = [[1 / 4 :: real]]\<rparr>"
  let ?b = "\<lparr>mean = [0::real], covariance = [[1::real]]\<rparr>"
  let ?st = "initial_state quadratic_sensor ?n ?b"
  let ?q = "unscented_scalar (1 / 2)"
  let ?inv = "inverse_1x1 s"
  let ?pX = "state_points ?q ?b ?st" and ?pQ = "noise_points ?q ?b ?st"
  let ?f = "\<lambda>(i::int) (x::vec) (w::vec). [x ! 0 * x ! 0 + x ! 0 + w ! 0]"
  let ?w = "[- 7, 2, 2, 2, 2 :: real]"
  have f: "local_fn ?st = ?f"
    by (simp add: local_fn_def quadratic_sensor_def initial_state_def)
  have N: "nat (count_local_models (obsrv_function ?st)) = 1"
    by (simp add: quadratic_sensor_def)
  have sq: "sqrt (1 / 4) = 1 / 2"
    by (simp add: real_sqrt_divide)
  have uw: "unscented_weights (1 / 2) = ?w"
    by (simp add: unscented_weights_def power2_eq_square)
  have tr: "\<not> isl (transform_to_points ?q ?b (noise_distr ?st))"
    using unscented_transform_succeeds [of 1 "1 / 4" ?st 0 "1 / 2" 0] by auto
  have sp: "?pX = \<lparr>points_matrix = [[0, 1 / 2, - (1 / 2), 0, 0]], mean_weights = ?w,
      covariance_weights = ?w\<rparr>"
    and np: "?pQ = \<lparr>points_matrix = [[0, 0, 0, 1 / 4, - (1 / 4)]], mean_weights = ?w,
      covariance_weights = ?w\<rparr>"
    using unscented_points(1,2) [of "1 / 2" 1 "1 / 4" ?st 0 0] by (simp_all add: sq uw)
  have X: "points_matrix ?pX = [[0, 1 / 2, - (1 / 2), 0, 0]]"
    by (simp add: sp)
  have pY: "spec_p_Y ?q ?f ?pX ?pQ 0 =
      \<lparr>points_matrix = [[0, 3 / 4, - (1 / 4), 1 / 4, - (1 / 4)]], mean_weights = ?w,
       covariance_weights = ?w\<rparr>"
    unfolding spec_p_Y_def unscented_scalar_fields
    by (subst propagate_scalar_row [where xs = "[0, 1 / 2, - (1 / 2), 0, 0]"
          and qs = "[0, 0, 0, 1 / 4, - (1 / 4)]" and k = "\<lambda>x q. x * x + x + q"])
      (simp_all add: sp np)
  have my: "spec_mean_y ?q ?f ?pX ?pQ 0 = [1]"
    unfolding spec_mean_y_def pY by (simp add: weighted_mean_def mat_vec_def)
  have Yc: "centered_points (spec_p_Y ?q ?f ?pX ?pQ 0) =
      [[- 1, - (1 / 4), - (5 / 4), - (3 / 4), - (5 / 4)]]"
    using my unfolding spec_mean_y_def centered_points_def by (simp add: pY)
  have cw: "covariance_weights ?pX = ?w"
    by (simp add: sp)
  have cxx: "spec_c_xx ?pX = [[1]]"
    unfolding spec_c_xx_def X cw by (simp add: weighted_cov_1x1)
  have cxy: "spec_c_xy ?q ?f ?pX ?pQ 0 = [[1]]"
    unfolding spec_c_xy_def X Yc cw by (simp add: weighted_cov_1x1)
  have cyy: "spec_c_yy ?q ?f ?pX ?pQ 0 = [[1 / 2]]"
    unfolding spec_c_yy_def Yc cw by (simp add: weighted_cov_1x1)
  have A: "spec_A ?inv ?q ?f ?pX ?pQ 0 = [[1]]"
    by (simp add: spec_A_def cxy cxx inverse_1x1_def)
  have S: "innovation_cov ?inv ?q ?f ?pX ?pQ 0 = [[- (1 / 2)]]"
    by (simp add: innovation_cov_def cxy cyy cxx inverse_1x1_def)
  have T: "spec_T ?inv ?q ?f ?pX ?pQ 0 = [[- 2]]"
    by (simp add: spec_T_def A S inverse_1x1_def)
  have C: "information_matrix ?inv ?q ?f ?pX ?pQ [0..<1] = [[- 1]]"
    by (simp add: information_matrix_def C_term_def T A cxx inverse_1x1_def)
  have ok: "list_all (slice_ok ?q (local_fn ?st) ?pX ?pQ [0])
      [0..<nat (count_local_models (obsrv_function ?st))]"
    unfolding N f by (simp add: slice_ok_def my)
  have r: "\<not> isl (multi_sensor_update ?inv ?q ?b [0] ?st)"
    using ok tr unfolding multi_sensor_update_def update_in_order_isl by simp
  have cv: "covariance (posterior_belief (final_state
      (multi_sensor_update ?inv ?q ?b [0] ?st))) = [[- 1]]"
    using r unfolding multi_sensor_update_def update_in_order_posterior N f C
    by (simp add: inverse_1x1_def)
  have inv: "is_inverse [[- (1 / 2)]] (?inv [[- (1 / 2)]])"
    by (simp add: inverse_1x1_def)
  show "positive_definite (covariance ?b) \<and>
   spec_c_xx ?pX = [[1]] \<and>
   innovation_cov ?inv ?q (local_fn ?st) ?pX ?pQ 0 = [[- (1 / 2)]] \<and>
   is_inverse [[- (1 / 2)]] (?inv [[- (1 / 2)]]) \<and>
   \<not> isl (multi_sensor_update ?inv ?q ?b [0] ?st) \<and>
   covariance (posterior_belief (final_state (multi_sensor_update ?inv ?q ?b [0] ?st))) = [[- 1]] \<and>
   \<not> positive_definite [[- 1]]"
    using cxx S r cv inv unfolding f by simp
qed

text \<open>
  C7, as the code has it. The call takes no noise distribution. The noise points it
  uses are the ones the quadrature generates from the member \<open>noise_distr_\<close> of the
  policy, and neither they nor the member change during the call. Where the transform
  of the quadrature fails, the member \<open>p_Q\<close> is as it was.
\<close>

theorem C7_noise_points_from_the_member:
  "p_Q (final_state (multi_sensor_update inv_mat quad prior y st)) =
     (case transform_to_points quad prior (noise_distr st) of
        Inl e \<Rightarrow> p_Q st
      | Inr pts \<Rightarrow> snd pts) \<and>
   noise_distr (final_state (multi_sensor_update inv_mat quad prior y st)) = noise_distr st"
  unfolding multi_sensor_update_def
  by (simp add: update_in_order_points noise_points_def)

text \<open>
  C7 fails: two calls with the same observation model, quadrature, prior belief,
  measurement and output belief, on policies whose member \<open>noise_distr_\<close> differs, use
  different noise points.
\<close>

theorem C7_counterexample:
  "\<forall>s. p_Q (final_state
      (multi_sensor_update (inverse_1x1 s) (unscented_scalar 2)
         \<lparr>mean = [0], covariance = [[1]]\<rparr> [1]
         (initial_state (identity_sensors 1) \<lparr>mean = [0], covariance = [[1]]\<rparr>
            \<lparr>mean = [0], covariance = [[1]]\<rparr>))) \<noteq>
   p_Q (final_state
      (multi_sensor_update (inverse_1x1 s) (unscented_scalar 2)
         \<lparr>mean = [0], covariance = [[1]]\<rparr> [1]
         (initial_state (identity_sensors 1) \<lparr>mean = [0], covariance = [[4]]\<rparr>
            \<lparr>mean = [0], covariance = [[1]]\<rparr>)))"
proof
  fix s :: real
  let ?b = "\<lparr>mean = [0::real], covariance = [[1::real]]\<rparr>"
  let ?s1 = "initial_state (identity_sensors 1) \<lparr>mean = [0], covariance = [[1]]\<rparr> ?b"
  let ?s4 = "initial_state (identity_sensors 1) \<lparr>mean = [0], covariance = [[4]]\<rparr> ?b"
  have a: "points_matrix (noise_points (unscented_scalar 2) ?b ?s1) = [[0, 0, 0, 2, - 2]]"
    using unscented_points(2) [of 2 1 1 ?s1 0 0] by simp
  have b: "points_matrix (noise_points (unscented_scalar 2) ?b ?s4) = [[0, 0, 0, 4, - 4]]"
    using unscented_points(2) [of 2 1 4 ?s4 0 0] by simp
  have "noise_points (unscented_scalar 2) ?b ?s1 \<noteq> noise_points (unscented_scalar 2) ?b ?s4"
    using a b by auto
  then show "p_Q (final_state (multi_sensor_update (inverse_1x1 s) (unscented_scalar 2) ?b [1] ?s1)) \<noteq>
      p_Q (final_state (multi_sensor_update (inverse_1x1 s) (unscented_scalar 2) ?b [1] ?s4))"
    by (simp add: multi_sensor_update_def update_in_order_points)
qed

text \<open>
  C8, as the code has it. The sensor index is stored in the shared observation model
  by its setter before each propagation; the evaluation takes no index. After a call
  that succeeds with at least one sensor, the stored index is that of the last sensor,
  and the observation function and the count of the model are as they were.
\<close>

theorem C8_sensor_index_stored_in_the_model:
  assumes "multi_sensor_update inv_mat quad prior y st = Inr st'"
    and "0 < count_local_models (obsrv_function st)"
  shows "sensor_id (local_obsrv_model (obsrv_function st')) =
      count_local_models (obsrv_function st) - 1 \<and>
    local_fn st' = local_fn st \<and>
    count_local_models (obsrv_function st') = count_local_models (obsrv_function st)"
proof -
  let ?N = "nat (count_local_models (obsrv_function st))"
  let ?sa = "st\<lparr>p_X := state_points quad prior st, p_Q := noise_points quad prior st\<rparr>"
  have r: "update_in_order [0..<?N] inv_mat quad prior y st = Inr st'"
    using assms(1) by (simp add: multi_sensor_update_def)
  have "\<exists>b. st' = (fold (visited quad) [0..<?N] ?sa)\<lparr>posterior_belief := b\<rparr>"
    using r by (cases rule: update_in_order_cases [of quad prior st "[0..<?N]" inv_mat y]) auto
  then obtain b where st': "st' = (fold (visited quad) [0..<?N] ?sa)\<lparr>posterior_belief := b\<rparr>"
    by blast
  have ne: "[0..<?N] \<noteq> []" and l: "int (last [0..<?N]) = count_local_models (obsrv_function st) - 1"
    using assms(2) by (simp_all add: last_upt)
  have id: "sensor_id (local_obsrv_model (obsrv_function st')) =
      count_local_models (obsrv_function st) - 1"
    using fold_visited_id [OF ne, of quad ?sa] l by (simp add: st')
  have f: "local_fn st' = local_fn st"
    using fold_visited_simps(6) [of quad "[0..<?N]" ?sa] by (simp add: st' local_fn_def)
  have c: "count_local_models (obsrv_function st') = count_local_models (obsrv_function st)"
    by (simp add: st')
  show ?thesis
    using id f c by simp
qed

theorem C8_witness:
  "\<forall>s. \<exists>st'. multi_sensor_update (inverse_1x1 s) (unscented_scalar 2)
        \<lparr>mean = [0], covariance = [[1]]\<rparr> [1, 3]
        (initial_state (identity_sensors 2) \<lparr>mean = [0], covariance = [[1]]\<rparr>
           \<lparr>mean = [0], covariance = [[1]]\<rparr>) = Inr st' \<and>
      sensor_id (local_obsrv_model (obsrv_function st')) = 1"
proof
  fix s :: real
  let ?st = "initial_state (identity_sensors 2) \<lparr>mean = [0], covariance = [[1]]\<rparr>
      \<lparr>mean = [0], covariance = [[1]]\<rparr>"
  let ?b = "\<lparr>mean = [0::real], covariance = [[1::real]]\<rparr>"
  have "\<not> isl (multi_sensor_update (inverse_1x1 s) (unscented_scalar 2) ?b [1, 3] ?st)"
    by (rule identity_update_succeeds) simp_all
  then obtain st' where r: "multi_sensor_update (inverse_1x1 s) (unscented_scalar 2) ?b [1, 3] ?st = Inr st'"
    by (cases "multi_sensor_update (inverse_1x1 s) (unscented_scalar 2) ?b [1, 3] ?st") auto
  show "\<exists>st'. multi_sensor_update (inverse_1x1 s) (unscented_scalar 2) ?b [1, 3] ?st = Inr st' \<and>
      sensor_id (local_obsrv_model (obsrv_function st')) = 1"
    using C8_sensor_index_stored_in_the_model [OF r] r by simp
qed

text \<open>
  C8 fails: the call with two sensors leaves the index 1 in the field of the observation
  model that held 0 before.
\<close>

theorem C8_counterexample:
  "\<forall>s. sensor_id (local_obsrv_model (obsrv_function
      (initial_state (identity_sensors 2) \<lparr>mean = [0], covariance = [[1]]\<rparr>
         \<lparr>mean = [0], covariance = [[1]]\<rparr>))) = 0 \<and>
   sensor_id (local_obsrv_model (obsrv_function (final_state
      (multi_sensor_update (inverse_1x1 s) (unscented_scalar 2)
         \<lparr>mean = [0], covariance = [[1]]\<rparr> [1, 3]
         (initial_state (identity_sensors 2) \<lparr>mean = [0], covariance = [[1]]\<rparr>
            \<lparr>mean = [0], covariance = [[1]]\<rparr>))))) = 1"
proof
  fix s :: real
  let ?st = "initial_state (identity_sensors 2) \<lparr>mean = [0], covariance = [[1]]\<rparr>
      \<lparr>mean = [0], covariance = [[1]]\<rparr>"
  let ?b = "\<lparr>mean = [0::real], covariance = [[1::real]]\<rparr>"
  let ?q = "unscented_scalar 2"
  let ?sa = "?st\<lparr>p_X := state_points ?q ?b ?st, p_Q := noise_points ?q ?b ?st\<rparr>"
  have "\<not> isl (update_in_order [0..<2] (inverse_1x1 s) ?q ?b [1, 3] ?st)"
    using identity_update_succeeds [of 2 1 1 2 "[1, 3]" "inverse_1x1 s" 0 "\<lparr>mean = [0], covariance = [[1]]\<rparr>"]
    by (simp add: multi_sensor_update_def)
  then have "\<exists>b. update_in_order [0..<2] (inverse_1x1 s) ?q ?b [1, 3] ?st =
      Inr ((fold (visited ?q) [0..<2] ?sa)\<lparr>posterior_belief := b\<rparr>)"
    by (cases rule: update_in_order_cases [of ?q ?b ?st "[0..<2]" "inverse_1x1 s" "[1, 3]"]) auto
  then obtain b where u: "update_in_order [0..<2] (inverse_1x1 s) ?q ?b [1, 3] ?st =
      Inr ((fold (visited ?q) [0..<2] ?sa)\<lparr>posterior_belief := b\<rparr>)"
    by blast
  have "sensor_id (local_obsrv_model (obsrv_function (fold (visited ?q) [0..<2] ?sa))) =
      int (last [0..<2])"
    by (rule fold_visited_id) simp
  then show "sensor_id (local_obsrv_model (obsrv_function ?st)) = 0 \<and>
   sensor_id (local_obsrv_model (obsrv_function (final_state
      (multi_sensor_update (inverse_1x1 s) ?q ?b [1, 3] ?st)))) = 1"
    unfolding multi_sensor_update_def
    by (simp add: u final_state_def)
qed

text \<open>
  C9, as the code has it. The constructor tests nothing: for every count, zero and the
  negative ones too, it returns a model, whose member holds the count converted to
  \<open>size_t\<close>.
\<close>

theorem C9_constructor_accepts_every_count:
  "\<not> isl (FactorizedIIDObservationModel m n) \<and>
   factor_obsrv_model (projr (FactorizedIIDObservationModel m n)) = m \<and>
   uint (factors (projr (FactorizedIIDObservationModel m n))) = sint n mod 2 ^ 64"
  by (simp add: FactorizedIIDObservationModel_def scast_value)

text \<open>C9 fails: the counts 0 and -1 give a model and no error.\<close>

theorem C9_counterexample:
  "sint (0 :: 32 word) \<le> 0 \<and>
   FactorizedIIDObservationModel two_noise_sensor 0 =
     Inr \<lparr>factor_obsrv_model = two_noise_sensor, factors = 0\<rparr> \<and>
   sint (- 1 :: 32 word) \<le> 0 \<and>
   FactorizedIIDObservationModel two_noise_sensor (- 1) =
     Inr \<lparr>factor_obsrv_model = two_noise_sensor, factors = - 1\<rparr>"
  by (simp add: FactorizedIIDObservationModel_def)

text \<open>
  C10 fails on the code. A local model with one observation row and two noise rows, in
  two factors, with the template argument \<open>Factors\<close> two: the arguments have the rows of
  the aggregate types of the Traits, two each, the aggregate noise dimension the model
  reports is four, and the noise slice of the second factor, rows 2 and 3, is outside the
  noise vector.
\<close>

theorem C10_noise_slice_out_of_range:
  "length [0, 0 :: real] = Traits_State_rows two_noise_sensor 2 \<and>
   length [0, 0 :: real] = Traits_Noise_rows two_noise_sensor 2 \<and>
   aggregate_noise_dimension (projr (FactorizedIIDObservationModel two_noise_sensor 2)) = 4 \<and>
   \<not> slices_in_bounds (projr (FactorizedIIDObservationModel two_noise_sensor 2)) [0, 0] [0, 0] \<and>
   predict_observation 2 (projr (FactorizedIIDObservationModel two_noise_sensor 2))
     [0, 0] [0, 0] 0 = Inl IndexOutOfRange"
proof -
  have u: "[0..<2] = [0, Suc 0]"
    by (simp add: numeral_2_eq_2)
  have s: "(scast (2 :: 32 word) :: 64 word) = 2"
    by simp
  show ?thesis
    by (simp add: FactorizedIIDObservationModel_def s Traits_State_rows_def Traits_Noise_rows_def
        FactorSize_def two_noise_sensor_def aggregate_noise_dimension_def slices_in_bounds_def
        predict_observation_def aggregate_observation_dimension_def Traits_Observation_rows_def
        u middleRows_def assign_middleRows_def)
qed

end
